theory Spec2Isabelle
  imports
    Main
    "HOL-Library.Sublist"
    "HOL-Library.Char_ord"
    "HOL-Library.List_Lexorder"
begin

section \<open>Python strings\<close>

text \<open>
  A Python \<open>str\<close> is a sequence of code points. It is modelled as a \<open>string\<close>, one
  \<open>char\<close> per code point, which covers the code points below 256; \<open>length\<close> is then
  Python's \<open>len\<close>. The tables below (white space, lower case, case folding) are the ones
  of Python 3 restricted to that range.
\<close>

definition py_isspace :: "char \<Rightarrow> bool" where
  "py_isspace c \<longleftrightarrow>
     (of_char c :: nat) \<in> {9, 10, 11, 12, 13, 28, 29, 30, 31, 32, 133, 160}"

definition lstrip_chars :: "(char \<Rightarrow> bool) \<Rightarrow> string \<Rightarrow> string" where
  "lstrip_chars P s = dropWhile P s"

definition rstrip_chars :: "(char \<Rightarrow> bool) \<Rightarrow> string \<Rightarrow> string" where
  "rstrip_chars P s = rev (dropWhile P (rev s))"

definition strip_chars :: "(char \<Rightarrow> bool) \<Rightarrow> string \<Rightarrow> string" where
  "strip_chars P s = rstrip_chars P (lstrip_chars P s)"

text \<open>\<open>s.strip()\<close>, \<open>s.strip("/")\<close> and \<open>s.lstrip("/")\<close>.\<close>

definition strip :: "string \<Rightarrow> string" where
  "strip s = strip_chars py_isspace s"

definition strip_slash :: "string \<Rightarrow> string" where
  "strip_slash s = strip_chars (\<lambda>c. c = CHR ''/'') s"

definition lstrip_slash :: "string \<Rightarrow> string" where
  "lstrip_slash s = lstrip_chars (\<lambda>c. c = CHR ''/'') s"

text \<open>\<open>s.lower()\<close>: A-Z and the capital letters of Latin-1 (not the multiplication sign).\<close>

definition lower_char :: "char \<Rightarrow> char" where
  "lower_char c =
     (let n = (of_char c :: nat)
      in if (65 \<le> n \<and> n \<le> 90) \<or> (192 \<le> n \<and> n \<le> 222 \<and> n \<noteq> 215)
         then char_of (n + 32) else c)"

definition lower :: "string \<Rightarrow> string" where
  "lower s = map lower_char s"

text \<open>
  \<open>str.casefold\<close>, the sort key of \<open>unique\<close>. Folding leaves Latin-1 (the micro sign
  folds to U+03BC, the sharp s to two letters), so the key is a list of code points.
\<close>

definition casefold_char :: "char \<Rightarrow> nat list" where
  "casefold_char c =
     (let n = (of_char c :: nat)
      in if n = 181 then [956]
         else if n = 223 then [115, 115]
         else [of_char (lower_char c)])"

definition casefold :: "string \<Rightarrow> nat list" where
  "casefold s = concat (map casefold_char s)"

text \<open>\<open>s.split(sep, 1)[0]\<close> for a non-empty \<open>sep\<close>: what stands before its first occurrence.\<close>

fun split_first :: "string \<Rightarrow> string \<Rightarrow> string" where
  "split_first sep [] = []"
| "split_first sep (c # cs) = (if prefix sep (c # cs) then [] else c # split_first sep cs)"

text \<open>\<open>s.split(sep, 1)\<close> for a non-empty \<open>sep\<close>: a list of one or two fields.\<close>

fun split1 :: "string \<Rightarrow> string \<Rightarrow> string list" where
  "split1 sep [] = [[]]"
| "split1 sep (c # cs) =
     (if prefix sep (c # cs) then [[], drop (length sep) (c # cs)]
      else (case split1 sep cs of [] \<Rightarrow> [[c]] | field # fields \<Rightarrow> (c # field) # fields))"

text \<open>\<open>s.rsplit(sep, 1)[-1]\<close> for a one-character \<open>sep\<close>: what stands after its last occurrence.\<close>

definition rsplit_last :: "char \<Rightarrow> string \<Rightarrow> string" where
  "rsplit_last sep s = rev (takeWhile (\<lambda>c. c \<noteq> sep) (rev s))"

text \<open>\<open>s.split(sep)\<close> for a one-character \<open>sep\<close>: every field, empty ones too.\<close>

fun split_all :: "char \<Rightarrow> string \<Rightarrow> string list" where
  "split_all sep [] = [[]]"
| "split_all sep (c # cs) =
     (case split_all sep cs of
        [] \<Rightarrow> (if c = sep then [[], []] else [[c]])
      | field # fields \<Rightarrow> (if c = sep then [] # field # fields else (c # field) # fields))"

text \<open>\<open>str(n)\<close> for a natural number, and the format \<open>{n:>5}\<close> (right-aligned in five columns).\<close>

fun str_nat :: "nat \<Rightarrow> string" where
  "str_nat n =
     (if n < 10 then [char_of (48 + n)]
      else str_nat (n div 10) @ [char_of (48 + n mod 10)])"

declare str_nat.simps [simp del]

definition format_right5 :: "nat \<Rightarrow> string" where
  "format_right5 n = replicate (5 - length (str_nat n)) CHR '' '' @ str_nat n"

section \<open>Helpers of the script\<close>

subsection \<open>\<open>unique\<close>\<close>

text \<open>
  \<^verbatim>\<open>
  def unique(sequence, sort = False):
      seen = set()
      array = [x for x in sequence if not (x in seen or seen.add(x))]
      if sort and array:
          array = sorted(array, key = str.casefold, reverse = False)
      return array
  \<close>
  The comprehension keeps \<open>x\<close> when it is not in \<open>seen\<close>, and then adds it
  (\<open>seen.add\<close> returns \<open>None\<close>). \<open>sorted\<close> is stable, as \<open>sort_key\<close> is.
\<close>

fun unique_comprehension :: "'a set \<Rightarrow> 'a list \<Rightarrow> 'a list" where
  "unique_comprehension seen [] = []"
| "unique_comprehension seen (x # xs) =
     (if x \<in> seen then unique_comprehension seen xs
      else x # unique_comprehension (insert x seen) xs)"

definition unique :: "string list \<Rightarrow> bool \<Rightarrow> string list" where
  "unique sequence sorting =
     (let array = unique_comprehension {} sequence
      in if sorting \<and> array \<noteq> [] then sort_key casefold array else array)"


section \<open>The browser, the console and the files\<close>

text \<open>
  The script drives a browser through Playwright, prints to the console and reads files.
  What those do is not in the script: it is an environment, a record of functions over a
  state \<open>'b\<close> of the browser and of the extension in it. Every call may raise; the
  exceptions are the ones \<open>Test.run\<close> names in its \<open>except\<close> clause, and \<open>Uncaught\<close> for
  every other one (\<open>AttributeError\<close>, \<open>IndexError\<close>, ...), which no handler of the script
  catches. \<open>KeyboardInterrupt\<close> is what the operator's CTRL + C raises, inside whichever
  call is waiting at that moment.
\<close>

datatype failure =
    PlaywrightTargetClosedError string
  | PlaywrightTimeoutError string
  | PlaywrightError string
  | KeyboardInterrupt
  | Uncaught string

type_synonym page = nat

text \<open>\<open>page.locator(css).filter(has_text = text)\<close>\<close>

datatype locator = Locator (css : string) (has_text : string)

datatype request =
    PlaywrightStart
  | LaunchPersistentContext
  | GrantPermissions
  | SetDefaultTimeout nat
  | BackgroundUrl
  | ContextClose
  | PlaywrightStop
  | NewPage
  | PageClose page
  | Goto page string
  | Sleep int
  | WaitForLoadState page
  | IsVisible page locator
  | TextContent page locator
  | Fill page locator string
  | PressSequentially page locator string
  | Click page locator
  | ReadLine

datatype answer = Done | Flag bool | Text string | Handle page

text \<open>
  The console helpers \<open>print_info\<close>, \<open>print_alert\<close>, \<open>print_action\<close>, \<open>print_download\<close>
  and \<open>print_error\<close> differ in the tag they print before the text.
\<close>

datatype severity = Info | Alert | Action | Download | Error

text \<open>
  Every call made to the environment and every line printed is recorded, in order, with
  what the call returned or raised. The claims about what the script does (which
  passwords it tries, which targets it loads, whether the browser is closed) are claims
  about this list.
\<close>

datatype event =
    Call request "failure + answer"
  | Console severity string
  | Print string

text \<open>
  What \<open>read_array\<close> finds under a file name: no file, a file without read permission, a
  file whose bytes are not UTF-8, or the text the bytes decode to.
\<close>

datatype file_status = Missing | Unreadable | Undecodable | Contents string

record 'b env =
  env_perform :: "request \<Rightarrow> 'b \<Rightarrow> (failure + unit) \<times> 'b"
  env_is_visible :: "page \<Rightarrow> locator \<Rightarrow> 'b \<Rightarrow> (failure + bool) \<times> 'b"
  env_text_content :: "page \<Rightarrow> locator \<Rightarrow> 'b \<Rightarrow> (failure + string) \<times> 'b"
  env_new_page :: "'b \<Rightarrow> (failure + page) \<times> 'b"
  env_background_url :: "'b \<Rightarrow> (failure + string) \<times> 'b"
  env_input :: "'b \<Rightarrow> (failure + string) \<times> 'b"
  env_file :: "string \<Rightarrow> file_status"

text \<open>
  The \<open>Sandbox\<close> object: what its constructor receives and never changes
  (\<open>sandbox\<close>), and what \<open>browser_start\<close> assigns (\<open>world\<close>, next to the state of the
  browser): \<open>self.playwright\<close> and \<open>self.context\<close> are \<open>None\<close> until then, and
  \<open>settings["url_base"]\<close> is empty.
\<close>

record sandbox =
  sb_browser :: string
  sb_password :: string
  sb_wait_time :: int
  sb_proxy :: string

record 'b world =
  browser :: 'b
  self_playwright :: bool
  self_context :: bool
  url_base :: string

definition css_root :: string where "css_root = ''body''"
definition css_submit :: string where "css_submit = ''input[type=submit]''"
definition css_checkbox :: string where "css_checkbox = ''input[type=checkbox]''"
definition css_text :: string where "css_text = ''input[type=text]''"
definition css_email :: string where "css_email = ''input[type=email]''"
definition css_password :: string where "css_password = ''input[type=password]''"
definition home_page :: string where "home_page = ''home.html''"

subsection \<open>Programs\<close>

text \<open>
  A piece of the script is a function from the world to its result (a value, or the
  exception it raised), the world after it and the events it produced. \<open>bnd\<close> is
  sequencing: an exception of the first part skips the second.
\<close>

type_synonym ('b, 'a) prog = "'b world \<Rightarrow> (failure + 'a) \<times> 'b world \<times> event list"

definition ret :: "'a \<Rightarrow> ('b, 'a) prog" where
  "ret x w = (Inr x, w, [])"

definition raise :: "failure \<Rightarrow> ('b, 'a) prog" where
  "raise e w = (Inl e, w, [])"

definition bnd :: "('b, 'a) prog \<Rightarrow> ('a \<Rightarrow> ('b, 'c) prog) \<Rightarrow> ('b, 'c) prog" where
  "bnd m f w =
     (case m w of
        (Inl e, w1, es1) \<Rightarrow> (Inl e, w1, es1)
      | (Inr x, w1, es1) \<Rightarrow> (case f x w1 of (r, w2, es2) \<Rightarrow> (r, w2, es1 @ es2)))"

definition outcome :: "(failure + 'a) \<times> 'b world \<times> event list \<Rightarrow> failure + 'a" where
  "outcome t = fst t"

definition events :: "(failure + 'a) \<times> 'b world \<times> event list \<Rightarrow> event list" where
  "events t = snd (snd t)"

definition after :: "(failure + 'a) \<times> 'b world \<times> event list \<Rightarrow> 'b world" where
  "after t = fst (snd t)"

text \<open>\<open>try: body except (...) as ex: handler(ex)\<close> and \<open>try: body finally: final\<close>.\<close>

definition try_except ::
  "('b, 'a) prog \<Rightarrow> (failure \<Rightarrow> bool) \<Rightarrow> (failure \<Rightarrow> ('b, 'a) prog) \<Rightarrow> ('b, 'a) prog" where
  "try_except body caught handler w =
     (case body w of
        (Inr x, w1, es1) \<Rightarrow> (Inr x, w1, es1)
      | (Inl e, w1, es1) \<Rightarrow>
          (if caught e then (case handler e w1 of (r, w2, es2) \<Rightarrow> (r, w2, es1 @ es2))
           else (Inl e, w1, es1)))"

definition try_finally :: "('b, 'a) prog \<Rightarrow> ('b, unit) prog \<Rightarrow> ('b, 'a) prog" where
  "try_finally body final w =
     (case body w of (r, w1, es1) \<Rightarrow>
        (case final w1 of
           (Inl e, w2, es2) \<Rightarrow> (Inl e, w2, es1 @ es2)
         | (Inr u, w2, es2) \<Rightarrow> (r, w2, es1 @ es2)))"

subsection \<open>Calls to the environment\<close>

definition perform :: "'b env \<Rightarrow> request \<Rightarrow> ('b, unit) prog" where
  "perform env req w =
     (case env_perform env req (browser w) of
        (r, b) \<Rightarrow> (r, w\<lparr>browser := b\<rparr>, [Call req (map_sum id (\<lambda>u. Done) r)]))"

definition query_visible :: "'b env \<Rightarrow> page \<Rightarrow> locator \<Rightarrow> ('b, bool) prog" where
  "query_visible env pg loc w =
     (case env_is_visible env pg loc (browser w) of
        (r, b) \<Rightarrow> (r, w\<lparr>browser := b\<rparr>, [Call (IsVisible pg loc) (map_sum id Flag r)]))"

definition query_text :: "'b env \<Rightarrow> page \<Rightarrow> locator \<Rightarrow> ('b, string) prog" where
  "query_text env pg loc w =
     (case env_text_content env pg loc (browser w) of
        (r, b) \<Rightarrow> (r, w\<lparr>browser := b\<rparr>, [Call (TextContent pg loc) (map_sum id Text r)]))"

definition query_url :: "'b env \<Rightarrow> ('b, string) prog" where
  "query_url env w =
     (case env_background_url env (browser w) of
        (r, b) \<Rightarrow> (r, w\<lparr>browser := b\<rparr>, [Call BackgroundUrl (map_sum id Text r)]))"

definition read_line :: "'b env \<Rightarrow> ('b, string) prog" where
  "read_line env w =
     (case env_input env (browser w) of
        (r, b) \<Rightarrow> (r, w\<lparr>browser := b\<rparr>, [Call ReadLine (map_sum id Text r)]))"

definition console :: "severity \<Rightarrow> string \<Rightarrow> ('b, unit) prog" where
  "console sev text w = (Inr (), w, [Console sev text])"

definition print_info :: "string \<Rightarrow> ('b, unit) prog" where
  "print_info text = console Info text"

definition print_alert :: "string \<Rightarrow> ('b, unit) prog" where
  "print_alert text = console Alert text"

definition print_error :: "string \<Rightarrow> ('b, unit) prog" where
  "print_error text = console Error text"

text \<open>\<open>print_action\<close> is \<open>input\<close>: it prints the prompt and waits for a line.\<close>

definition print_action :: "'b env \<Rightarrow> string \<Rightarrow> ('b, string) prog" where
  "print_action env text = bnd (console Action text) (\<lambda>u. read_line env)"


subsection \<open>\<open>read_array\<close> and \<open>get_extra_value\<close>\<close>

text \<open>
  Iterating over a text stream gives the lines of the file, each with its line ending
  (\<open>\n\<close>, \<open>\r\<close> or \<open>\r\n\<close>, all read as \<open>\n\<close>) but for a last line without one.
  The flag says that the character before was \<open>\r\<close>, so that a \<open>\n\<close> right after it
  belongs to the same line ending.
\<close>

fun stream_lines :: "bool \<Rightarrow> string \<Rightarrow> string \<Rightarrow> string list" where
  "stream_lines after_cr line [] = (if line = [] then [] else [line])"
| "stream_lines after_cr line (c # cs) =
     (if c = CHR 0x0A then
        (if after_cr then stream_lines False line cs
         else (line @ [CHR 0x0A]) # stream_lines False [] cs)
      else if c = CHR 0x0D then (line @ [CHR 0x0A]) # stream_lines True [] cs
      else stream_lines False (line @ [c]) cs)"

text \<open>
  \<^verbatim>\<open>
  for line in stream:
      line = line.strip()
      if line:
          array.append(line)
  \<close>
\<close>

fun stripped_lines :: "string list \<Rightarrow> string list" where
  "stripped_lines [] = []"
| "stripped_lines (line # rest) =
     (let line = strip line
      in if line \<noteq> [] then line # stripped_lines rest else stripped_lines rest)"

definition quoted :: "string \<Rightarrow> string" where
  "quoted s = [CHR 0x22] @ s @ [CHR 0x22]"

text \<open>
  \<^verbatim>\<open>
  def read_array(file, sort = False):
      array = []
      if not os.path.isfile(file):
          print_error(f"\"{file}\" is not a file or does not exist")
      elif not os.access(file, os.R_OK):
          print_error(f"\"{file}\" file does not have a read permission")
      elif not os.stat(file).st_size > 0:
          print_error(f"\"{file}\" file is empty")
      else:
          with open(file, "r", encoding = "UTF-8") as stream:
              for line in stream: ...
      return unique(array, sort)
  \<close>
  Reading a file whose bytes are not UTF-8 raises \<open>UnicodeDecodeError\<close>, which nothing
  catches; such a file has at least one byte.
\<close>

definition read_array :: "'b env \<Rightarrow> string \<Rightarrow> bool \<Rightarrow> ('b, string list) prog" where
  "read_array env file sorting =
     (case env_file env file of
        Missing \<Rightarrow>
          bnd (print_error (quoted file @ '' is not a file or does not exist''))
            (\<lambda>u. ret (unique [] sorting))
      | Unreadable \<Rightarrow>
          bnd (print_error (quoted file @ '' file does not have a read permission''))
            (\<lambda>u. ret (unique [] sorting))
      | Undecodable \<Rightarrow> raise (Uncaught ''UnicodeDecodeError'')
      | Contents text \<Rightarrow>
          if \<not> length text > 0 then
            bnd (print_error (quoted file @ '' file is empty''))
              (\<lambda>u. ret (unique [] sorting))
          else ret (unique (stripped_lines (stream_lines False [] text)) sorting))"

text \<open>
  \<open>get_extra_value(**kwargs)\<close>: the value passed under the key \<open>value\<close>, or the empty
  string. (Its \<open>numeric\<close> parameter is \<open>False\<close> at every call in the script.)
\<close>

type_synonym kwargs = "string \<rightharpoonup> string"

definition get_extra_value :: "kwargs \<Rightarrow> string" where
  "get_extra_value kw = (case kw ''value'' of Some v \<Rightarrow> v | None \<Rightarrow> [])"

section \<open>The \<open>Sandbox\<close>\<close>

subsection \<open>Starting and stopping the browser\<close>

definition set_playwright :: "('b, unit) prog" where
  "set_playwright w = (Inr (), w\<lparr>self_playwright := True\<rparr>, [])"

definition set_context :: "('b, unit) prog" where
  "set_context w = (Inr (), w\<lparr>self_context := True\<rparr>, [])"

definition set_url_base :: "string \<Rightarrow> ('b, unit) prog" where
  "set_url_base url w = (Inr (), w\<lparr>url_base := url\<rparr>, [])"

definition get_world :: "('b, 'b world) prog" where
  "get_world w = (Inr w, w, [])"

text \<open>
  \<open>__get_url\<close> reads the manifest of the extension and waits for its service worker or
  background page; the address of that is one answer of the environment.
\<close>

definition get_url :: "'b env \<Rightarrow> ('b, string) prog" where
  "get_url env = query_url env"

text \<open>
  \<^verbatim>\<open>
  async def browser_start(self):
      self.playwright = await async_playwright().start()
      browsers = { "chromium": ..., "firefox": ... }
      self.context = await browsers[self.browser].launch_persistent_context(
          ..., proxy = { "server": self.__proxy } if self.proxy else None, ...)
      if self.browser != "firefox":
          await self.context.grant_permissions(["camera"])
      self.context.set_default_timeout(self.timeout)
      array = (await self.__get_url()).split("://", 1)
      self.settings["url_base"] = f"{array[0]}://{array[1].split('/', 1)[0]}"
      print_info(f"Running a {self.browser} sandbox...")
  \<close>
  The object has no attribute \<open>__proxy\<close> (the constructor assigns \<open>proxy\<close>), so a
  non-empty proxy raises \<open>AttributeError\<close> before the launch.
\<close>

definition browser_start :: "'b env \<Rightarrow> sandbox \<Rightarrow> ('b, unit) prog" where
  "browser_start env sb =
     bnd (perform env PlaywrightStart) (\<lambda>u.
     bnd set_playwright (\<lambda>u.
     bnd (if sb_browser sb \<noteq> ''chromium'' \<and> sb_browser sb \<noteq> ''firefox''
          then raise (Uncaught ''KeyError'') else ret ()) (\<lambda>u.
     bnd (if sb_proxy sb \<noteq> [] then raise (Uncaught ''AttributeError'') else ret ()) (\<lambda>u.
     bnd (perform env LaunchPersistentContext) (\<lambda>u.
     bnd set_context (\<lambda>u.
     bnd (if sb_browser sb \<noteq> ''firefox'' then perform env GrantPermissions else ret ()) (\<lambda>u.
     bnd (perform env (SetDefaultTimeout (30 * 1000))) (\<lambda>u.
     bnd (get_url env) (\<lambda>url.
     bnd (case split1 ''://'' url of
            [scheme, rest] \<Rightarrow> set_url_base (scheme @ ''://'' @ split_first ''/'' rest)
          | _ \<Rightarrow> raise (Uncaught ''IndexError'')) (\<lambda>u.
     print_info (''Running a '' @ sb_browser sb @ '' sandbox...'')))))))))))"

text \<open>
  \<^verbatim>\<open>
  async def browser_stop(self):
      await self.context.close()
      await self.playwright.stop()
  \<close>
  Either attribute is \<open>None\<close> when \<open>browser_start\<close> did not get that far.
\<close>

definition browser_stop :: "'b env \<Rightarrow> ('b, unit) prog" where
  "browser_stop env =
     bnd get_world (\<lambda>w.
     bnd (if self_context w then perform env ContextClose
          else raise (Uncaught ''AttributeError'')) (\<lambda>u.
     bnd get_world (\<lambda>w.
     if self_playwright w then perform env PlaywrightStop
     else raise (Uncaught ''AttributeError''))))"

subsection \<open>Single actions\<close>

text \<open>
  \<^verbatim>\<open>
  async def __new_page(self):
      return await self.context.new_page()
  \<close>
  \<open>self.context\<close> is \<open>None\<close> until \<open>browser_start\<close> has launched the browser: before
  that the attribute lookup raises \<open>AttributeError\<close> and no call reaches the browser.
\<close>

definition new_page :: "'b env \<Rightarrow> ('b, page) prog" where
  "new_page env w =
     (if \<not> self_context w then (Inl (Uncaught ''AttributeError''), w, [])
      else case env_new_page env (browser w) of
             (r, b) \<Rightarrow> (r, w\<lparr>browser := b\<rparr>, [Call NewPage (map_sum id Handle r)]))"

definition close :: "'b env \<Rightarrow> page \<Rightarrow> bool \<Rightarrow> ('b, unit) prog" where
  "close env pg do_close = (if do_close then perform env (PageClose pg) else ret ())"

text \<open>
  \<^verbatim>\<open>
  async def __wait(self, page, override = -1):
      if override > 0:
          await asyncio.sleep(override)
      elif self.settings["wait_time"] > 0:
          await asyncio.sleep(self.settings["wait_time"])
      await page.wait_for_load_state(self.settings["wait_state"])
  \<close>
\<close>

definition wait :: "'b env \<Rightarrow> sandbox \<Rightarrow> page \<Rightarrow> int \<Rightarrow> ('b, unit) prog" where
  "wait env sb pg override =
     bnd (if override > 0 then perform env (Sleep override)
          else if sb_wait_time sb > 0 then perform env (Sleep (sb_wait_time sb))
          else ret ()) (\<lambda>u.
     perform env (WaitForLoadState pg))"

definition goto :: "'b env \<Rightarrow> sandbox \<Rightarrow> page \<Rightarrow> string \<Rightarrow> ('b, unit) prog" where
  "goto env sb pg url =
     bnd (perform env (Goto pg url)) (\<lambda>response.
     bnd (wait env sb pg (- 1)) (\<lambda>u.
     ret response))"

text \<open>
  \<^verbatim>\<open>
  async def __goto_browser_extension(self, page, path = ""):
      if not path:
          path = self.settings["home_page"]
      return await self.__goto(page, f"{self.settings['url_base']}/{path.lstrip('/')}")
  \<close>
\<close>

definition extension_url :: "string \<Rightarrow> string \<Rightarrow> string" where
  "extension_url base path =
     (let path = (if path = [] then home_page else path)
      in base @ ''/'' @ lstrip_slash path)"

definition goto_browser_extension ::
  "'b env \<Rightarrow> sandbox \<Rightarrow> page \<Rightarrow> string \<Rightarrow> ('b, unit) prog" where
  "goto_browser_extension env sb pg path =
     bnd get_world (\<lambda>w. goto env sb pg (extension_url (url_base w) path))"

definition locate :: "string \<Rightarrow> string \<Rightarrow> locator" where
  "locate c text = Locator c text"

definition get_text :: "'b env \<Rightarrow> page \<Rightarrow> string \<Rightarrow> string \<Rightarrow> ('b, string) prog" where
  "get_text env pg c text = query_text env pg (locate c text)"

definition get_size :: "'b env \<Rightarrow> page \<Rightarrow> string \<Rightarrow> string \<Rightarrow> ('b, nat) prog" where
  "get_size env pg c text = bnd (get_text env pg c text) (\<lambda>t. ret (length t))"

definition is_visible :: "'b env \<Rightarrow> page \<Rightarrow> string \<Rightarrow> string \<Rightarrow> ('b, bool) prog" where
  "is_visible env pg c text = query_visible env pg (locate c text)"

definition fill :: "'b env \<Rightarrow> page \<Rightarrow> string \<Rightarrow> string \<Rightarrow> ('b, unit) prog" where
  "fill env pg v c =
     (let c = (if c = [] then css_text else c)
      in perform env (Fill pg (locate c []) v))"

text \<open>
  \<^verbatim>\<open>
  for i in range(len(value)):
      await self.__locate(page, f"{css}>>nth={i}").press_sequentially(value[i])
  \<close>
\<close>

fun fill_sequentially_from ::
  "'b env \<Rightarrow> page \<Rightarrow> string \<Rightarrow> nat \<Rightarrow> string list \<Rightarrow> ('b, unit) prog" where
  "fill_sequentially_from env pg c i [] = ret ()"
| "fill_sequentially_from env pg c i (v # vs) =
     bnd (perform env (PressSequentially pg (locate (c @ ''>>nth='' @ str_nat i) []) v)) (\<lambda>u.
     fill_sequentially_from env pg c (Suc i) vs)"

definition fill_sequentially ::
  "'b env \<Rightarrow> page \<Rightarrow> string list \<Rightarrow> string \<Rightarrow> ('b, unit) prog" where
  "fill_sequentially env pg v c =
     (let c = (if c = [] then css_text else c)
      in fill_sequentially_from env pg c 0 v)"

definition tick :: "'b env \<Rightarrow> page \<Rightarrow> string \<Rightarrow> ('b, unit) prog" where
  "tick env pg c =
     (let c = (if c = [] then css_checkbox else c)
      in perform env (Click pg (locate c [])))"

definition submit ::
  "'b env \<Rightarrow> sandbox \<Rightarrow> page \<Rightarrow> string \<Rightarrow> string \<Rightarrow> ('b, unit) prog" where
  "submit env sb pg c text =
     (let c = (if c = [] then css_submit else c)
      in bnd (perform env (Click pg (locate c text))) (\<lambda>u. wait env sb pg (- 1)))"

subsection \<open>Several actions\<close>

text \<open>
  \<^verbatim>\<open>
  async def __create_password_submit(self, page, password = "", css = "", text = ""):
      if not password:
          password = self.settings["password"]
      for i in range(2):
          await self.__fill(page, password, f"{self.settings['css_password']}>>nth={i}")
      await self.__submit(page, css, text)

  async def __fill_password_submit(self, page, password = "", css = "", text = ""):
      if not password:
          password = self.settings["password"]
      await self.__fill(page, password, self.settings["css_password"])
      await self.__submit(page, css, text)
  \<close>
\<close>

definition create_password_submit ::
  "'b env \<Rightarrow> sandbox \<Rightarrow> page \<Rightarrow> string \<Rightarrow> string \<Rightarrow> string \<Rightarrow> ('b, unit) prog" where
  "create_password_submit env sb pg password c text =
     (let password = (if password = [] then sb_password sb else password)
      in bnd (fill env pg password (css_password @ ''>>nth='' @ str_nat 0)) (\<lambda>u.
         bnd (fill env pg password (css_password @ ''>>nth='' @ str_nat 1)) (\<lambda>u.
         submit env sb pg c text)))"

definition fill_password_submit ::
  "'b env \<Rightarrow> sandbox \<Rightarrow> page \<Rightarrow> string \<Rightarrow> string \<Rightarrow> string \<Rightarrow> ('b, unit) prog" where
  "fill_password_submit env sb pg password c text =
     (let password = (if password = [] then sb_password sb else password)
      in bnd (fill env pg password css_password) (\<lambda>u.
         submit env sb pg c text))"

definition fill_sequentially_password_submit ::
  "'b env \<Rightarrow> sandbox \<Rightarrow> page \<Rightarrow> string list \<Rightarrow> string \<Rightarrow> string \<Rightarrow> ('b, unit) prog" where
  "fill_sequentially_password_submit env sb pg password c text =
     bnd (fill_sequentially env pg password css_password) (\<lambda>u.
     submit env sb pg c text)"

subsection \<open>The state of the wallet, as the pages show it\<close>

definition created :: "'b env \<Rightarrow> page \<Rightarrow> ('b, bool) prog" where
  "created env pg =
     bnd (is_visible env pg ''button'' ''create a new wallet'') (\<lambda>v. ret (\<not> v))"

definition is_created :: "'b env \<Rightarrow> page \<Rightarrow> ('b, bool) prog" where
  "is_created env pg =
     bnd (created env pg) (\<lambda>c.
     bnd (if \<not> c then print_error ''Wallet is not created'' else ret ()) (\<lambda>u.
     ret c))"

definition is_not_created :: "'b env \<Rightarrow> page \<Rightarrow> ('b, bool) prog" where
  "is_not_created env pg =
     bnd (created env pg) (\<lambda>c.
     bnd (if c then print_error ''Wallet is already created'' else ret ()) (\<lambda>u.
     ret (\<not> c)))"

definition locked :: "'b env \<Rightarrow> page \<Rightarrow> ('b, bool) prog" where
  "locked env pg = is_visible env pg ''button'' ''unlock''"

text \<open>
  \<^verbatim>\<open>
  async def __unlock(self, page, password = ""):
      if await self.__locked(page):
          await self.__fill_password_submit(page, password, "button", "unlock")
          if await self.__is_visible(page, "button[data-testid=popover-close]"):
              await self.__submit(page, "button[data-testid=popover-close]")

  async def __lock(self, page):
      if not await self.__locked(page):
          await self.__goto_browser_extension(page, f"{self.settings['home_page']}#lock")
  \<close>
\<close>

definition unlock_wallet ::
  "'b env \<Rightarrow> sandbox \<Rightarrow> page \<Rightarrow> string \<Rightarrow> ('b, unit) prog" where
  "unlock_wallet env sb pg password =
     bnd (locked env pg) (\<lambda>l.
     if l then
       bnd (fill_password_submit env sb pg password ''button'' ''unlock'') (\<lambda>u.
       bnd (is_visible env pg ''button[data-testid=popover-close]'' []) (\<lambda>v.
       if v then submit env sb pg ''button[data-testid=popover-close]'' [] else ret ()))
     else ret ())"

definition lock_wallet :: "'b env \<Rightarrow> sandbox \<Rightarrow> page \<Rightarrow> ('b, unit) prog" where
  "lock_wallet env sb pg =
     bnd (locked env pg) (\<lambda>l.
     if \<not> l then goto_browser_extension env sb pg (home_page @ ''#lock'') else ret ())"


subsection \<open>Flows\<close>

definition open_flow :: "'b env \<Rightarrow> sandbox \<Rightarrow> kwargs \<Rightarrow> ('b, unit) prog" where
  "open_flow env sb kw =
     bnd (new_page env) (\<lambda>pg.
     goto_browser_extension env sb pg [])"

definition create :: "'b env \<Rightarrow> sandbox \<Rightarrow> kwargs \<Rightarrow> ('b, unit) prog" where
  "create env sb kw =
     bnd (new_page env) (\<lambda>pg.
     bnd (goto_browser_extension env sb pg []) (\<lambda>u.
     bnd (is_not_created env pg) (\<lambda>fresh.
     if fresh then
       bnd (tick env pg []) (\<lambda>u.
       bnd (submit env sb pg ''button'' ''create a new wallet'') (\<lambda>u.
       bnd (submit env sb pg ''button'' ''no thanks'') (\<lambda>u.
       bnd (tick env pg []) (\<lambda>u.
       bnd (create_password_submit env sb pg [] ''button'' ''create a new wallet'') (\<lambda>u.
       bnd (submit env sb pg ''button'' ''remind me later'') (\<lambda>u.
       bnd (tick env pg []) (\<lambda>u.
       bnd (submit env sb pg ''button'' ''skip'') (\<lambda>u.
       bnd (submit env sb pg ''button'' ''got it'') (\<lambda>u.
       bnd (submit env sb pg ''button'' ''next'') (\<lambda>u.
       bnd (submit env sb pg ''button'' ''done'') (\<lambda>u.
       submit env sb pg ''button[data-testid=popover-close]'' [])))))))))))
     else ret ())))"

definition mnemonic_required :: string where
  \<open>mnemonic_required =
     ''Mnemonic is required, please pass it manually using the "-v" option''\<close>

text \<open>
  \<^verbatim>\<open>
  async def existing(self, **kwargs):
      page = await self.__new_page()
      await self.__goto_browser_extension(page)
      if await self.__is_not_created(page):
          await self.__tick(page)
          await self.__submit(page, "button", "import an existing wallet")
          await self.__submit(page, "button", "no thanks")
          mnemonic = get_extra_value(**kwargs)
          if not mnemonic:
              print_error("Mnemonic is required, ...")
          else:
              await self.__fill_sequentially_password_submit(page, mnemonic.split(" "),
                  "button", "confirm Secret Recovery Phrase")
              ...
  \<close>
\<close>

definition existing :: "'b env \<Rightarrow> sandbox \<Rightarrow> kwargs \<Rightarrow> ('b, unit) prog" where
  "existing env sb kw =
     bnd (new_page env) (\<lambda>pg.
     bnd (goto_browser_extension env sb pg []) (\<lambda>u.
     bnd (is_not_created env pg) (\<lambda>fresh.
     if fresh then
       bnd (tick env pg []) (\<lambda>u.
       bnd (submit env sb pg ''button'' ''import an existing wallet'') (\<lambda>u.
       bnd (submit env sb pg ''button'' ''no thanks'') (\<lambda>u.
       let mnemonic = get_extra_value kw in
       if mnemonic = [] then print_error mnemonic_required
       else
         bnd (fill_sequentially_password_submit env sb pg (split_all CHR '' '' mnemonic)
                ''button'' ''confirm Secret Recovery Phrase'') (\<lambda>u.
         bnd (tick env pg []) (\<lambda>u.
         bnd (create_password_submit env sb pg [] ''button'' ''import my wallet'') (\<lambda>u.
         bnd (submit env sb pg ''button'' ''got it'') (\<lambda>u.
         bnd (submit env sb pg ''button'' ''next'') (\<lambda>u.
         bnd (submit env sb pg ''button'' ''done'') (\<lambda>u.
         submit env sb pg ''button[data-testid=popover-close]'' [])))))))))
     else ret ())))"

definition unlock :: "'b env \<Rightarrow> sandbox \<Rightarrow> kwargs \<Rightarrow> ('b, unit) prog" where
  "unlock env sb kw =
     bnd (new_page env) (\<lambda>pg.
     bnd (goto_browser_extension env sb pg []) (\<lambda>u.
     bnd (is_created env pg) (\<lambda>c.
     if c then
       (let password = get_extra_value kw in unlock_wallet env sb pg password)
     else ret ())))"

text \<open>
  The loop of \<open>unlock_brute_force\<close>:
  \<^verbatim>\<open>
  for password in wordlist:
      await self.__fill_password_submit(page, password, "button", "unlock")
      if not await self.__locked(page):
          print_alert(f"Unlocked: {password}")
          break
  \<close>
\<close>

fun unlock_brute_force_loop ::
  "'b env \<Rightarrow> sandbox \<Rightarrow> page \<Rightarrow> string list \<Rightarrow> ('b, unit) prog" where
  "unlock_brute_force_loop env sb pg [] = ret ()"
| "unlock_brute_force_loop env sb pg (password # wordlist) =
     bnd (fill_password_submit env sb pg password ''button'' ''unlock'') (\<lambda>u.
     bnd (locked env pg) (\<lambda>l.
     if \<not> l then print_alert (''Unlocked: '' @ password)
     else unlock_brute_force_loop env sb pg wordlist))"

definition wordlist_required :: string where
  \<open>wordlist_required =
     ''Wordlist is required, please pass it manually using the "-v" option''\<close>

text \<open>
  \<^verbatim>\<open>
  async def unlock_brute_force(self, **kwargs):
      page = await self.__new_page()
      await self.__goto_browser_extension(page)
      if await self.__is_created(page):
          await self.__lock(page)
          wordlist = get_extra_value(**kwargs)
          if not wordlist:
              print_error("Wordlist is required, ...")
          else:
              wordlist = read_array(wordlist)
              print_info(f"Number of words loaded: {len(wordlist)}")
              for password in wordlist: ...
  \<close>
\<close>

definition unlock_brute_force :: "'b env \<Rightarrow> sandbox \<Rightarrow> kwargs \<Rightarrow> ('b, unit) prog" where
  "unlock_brute_force env sb kw =
     bnd (new_page env) (\<lambda>pg.
     bnd (goto_browser_extension env sb pg []) (\<lambda>u.
     bnd (is_created env pg) (\<lambda>c.
     if c then
       bnd (lock_wallet env sb pg) (\<lambda>u.
       let wordlist = get_extra_value kw in
       if wordlist = [] then print_error wordlist_required
       else
         bnd (read_array env wordlist False) (\<lambda>wordlist.
         bnd (print_info (''Number of words loaded: '' @ str_nat (length wordlist))) (\<lambda>u.
         unlock_brute_force_loop env sb pg wordlist)))
     else ret ())))"

definition idle_lock :: "'b env \<Rightarrow> sandbox \<Rightarrow> kwargs \<Rightarrow> ('b, unit) prog" where
  "idle_lock env sb kw =
     bnd (new_page env) (\<lambda>pg.
     bnd (goto_browser_extension env sb pg []) (\<lambda>u.
     bnd (is_created env pg) (\<lambda>c.
     if c then
       bnd (unlock_wallet env sb pg []) (\<lambda>u.
       bnd (submit env sb pg ''button[data-testid=account-options-menu-button]'' []) (\<lambda>u.
       bnd (submit env sb pg ''button[data-testid=global-menu-settings]'' []) (\<lambda>u.
       bnd (submit env sb pg ''button'' ''advanced'') (\<lambda>u.
       bnd (fill env pg ''2'' ''input[id=autoTimeout]'') (\<lambda>u.
       bnd (submit env sb pg ''button[data-testid=auto-lockout-button]'' []) (\<lambda>u.
       let wait_time = 2 * 60 + 5 in
       bnd (print_info (''Waiting '' @ str_nat (nat wait_time)
              @ '' sec for the wallet to auto-lock...'')) (\<lambda>u.
       bnd (wait env sb pg wait_time) (\<lambda>u.
       bnd (goto_browser_extension env sb pg []) (\<lambda>u.
       bnd (locked env pg) (\<lambda>l.
       if \<not> l then print_alert ''Auto-lock does not work properly'' else ret ()))))))))))
     else ret ())))"

subsection \<open>The access-control scan\<close>

definition pages :: "string list" where
  "pages = [''/home.html'']"

definition fragments :: "string list" where
  "fragments =
     [''#new-account'',
      ''#new-account/connect'',
      ''#notifications'',
      ''#restore-vault'',
      ''#seed'',
      ''#send'',
      ''#settings'',
      ''#settings/about-us'',
      ''#settings/advanced'',
      ''#settings/alerts'',
      ''#settings/contact-list'',
      ''#settings/contact-list/add-contact'',
      ''#settings/contact-list/edit-contact'',
      ''#settings/contact-list/view-contact'',
      ''#settings/general'',
      ''#settings/networks'',
      ''#settings/networks/form'',
      ''#settings/security'',
      ''#snaps'',
      ''#snaps/view'',
      ''#swaps'',
      ''#swaps/awaiting-signatures'',
      ''#swaps/build-quote'',
      ''#swaps/loading-quotes'',
      ''#swaps/maintenance'',
      ''#swaps/notification-page'',
      ''#swaps/prepare-swap-page'',
      ''#swaps/smart-transaction-status'',
      ''#swaps/swaps-error'',
      ''#swaps/view-quote'']"

text \<open>
  \<^verbatim>\<open>
  paths = []
  for page in pages:
      page = page.split(".html", 1)[0].strip("/")
      if page:
          page = f"/{page}.html"
          paths.append(page)
          for fragment in fragments:
              fragment = fragment.rsplit("#", 1)[-1].strip("/")
              if fragment:
                  paths.append(f"{page}#{fragment}")
  paths = unique(paths)
  \<close>
  \<open>fragment_paths\<close> is the inner loop (what it appends for one page), \<open>page_paths\<close> the
  outer one.
\<close>

fun fragment_paths :: "string \<Rightarrow> string list \<Rightarrow> string list" where
  "fragment_paths pg [] = []"
| "fragment_paths pg (fragment # rest) =
     (let fragment = strip_slash (rsplit_last CHR ''#'' fragment)
      in if fragment \<noteq> [] then (pg @ ''#'' @ fragment) # fragment_paths pg rest
         else fragment_paths pg rest)"

fun page_paths :: "string list \<Rightarrow> string list \<Rightarrow> string list" where
  "page_paths [] frs = []"
| "page_paths (pg # rest) frs =
     (let pg = strip_slash (split_first ''.html'' pg)
      in if pg \<noteq> [] then
           (let pg = ''/'' @ pg @ ''.html''
            in (pg # fragment_paths pg frs) @ page_paths rest frs)
         else page_paths rest frs)"

definition target_catalog :: "string list \<Rightarrow> string list \<Rightarrow> string list" where
  "target_catalog pgs frs = unique (page_paths pgs frs) False"

text \<open>
  One round of the scan loop, for the target \<open>path\<close>. \<open>tmp\<close> is the page of the round
  before; the first round has none, and opens one since \<open>success\<close> starts as \<open>True\<close>.
  The round returns the new \<open>success\<close> (whether the target was flagged) and \<open>tmp\<close>.
  \<^verbatim>\<open>
  for path in paths: # reusing the same page on success "False"
      if success:
          tmp = await self.__new_page()
      success = False
      await self.__goto_browser_extension(tmp, path)
      size = await self.__get_size(tmp, "div[id=app-content]") \
          if await self.__is_visible(tmp, "div[id=app-content]") else 0
      if size < 1 or (state == "locked" and await self.__locked(tmp)) \
          or (state == "unlocked" and
              await self.__is_visible(tmp, "div[class=wallet-overview__balance]")):
          continue
      success = True
      print_alert(f"Size: [{size:>5}] | URL: {self.settings['url_base']}{path}")
  \<close>
\<close>

definition leak_line :: "nat \<Rightarrow> string \<Rightarrow> string \<Rightarrow> string" where
  "leak_line sz base path = ''Size: ['' @ format_right5 sz @ ''] | URL: '' @ base @ path"

definition access_control_round ::
  "'b env \<Rightarrow> sandbox \<Rightarrow> string \<Rightarrow> bool \<Rightarrow> page option \<Rightarrow> string
     \<Rightarrow> ('b, bool \<times> page option) prog" where
  "access_control_round env sb state success tmp path =
     bnd (if success then bnd (new_page env) (\<lambda>pg. ret (Some pg)) else ret tmp) (\<lambda>tmp.
     case tmp of
       None \<Rightarrow> raise (Uncaught ''UnboundLocalError'')
     | Some t \<Rightarrow>
         bnd (goto_browser_extension env sb t path) (\<lambda>u.
         bnd (is_visible env t ''div[id=app-content]'' []) (\<lambda>v.
         bnd (if v then get_size env t ''div[id=app-content]'' [] else ret 0) (\<lambda>sz.
         bnd (if sz < 1 then ret True
              else
                bnd (if state = ''locked'' then locked env t else ret False) (\<lambda>gate.
                if gate then ret True
                else if state = ''unlocked''
                  then is_visible env t ''div[class=wallet-overview__balance]'' []
                  else ret False)) (\<lambda>skip.
         if skip then ret (False, Some t)
         else
           bnd get_world (\<lambda>w.
           bnd (print_alert (leak_line sz (url_base w) path)) (\<lambda>u.
           ret (True, Some t))))))))"

fun access_control_loop ::
  "'b env \<Rightarrow> sandbox \<Rightarrow> string \<Rightarrow> bool \<Rightarrow> page option \<Rightarrow> string list
     \<Rightarrow> ('b, bool \<times> page option) prog" where
  "access_control_loop env sb state success tmp [] = ret (success, tmp)"
| "access_control_loop env sb state success tmp (path # paths) =
     bnd (access_control_round env sb state success tmp path) (\<lambda>(success, tmp).
     access_control_loop env sb state success tmp paths)"

definition state_required :: string where
  \<open>state_required =
     ''Lock state is required, please pass "locked" or "unlocked" manually using the "-v" option''\<close>

text \<open>
  \<^verbatim>\<open>
  async def access_control(self, **kwargs):
      page = await self.__new_page()
      await self.__goto_browser_extension(page)
      if await self.__is_created(page):
          state = get_extra_value(**kwargs).lower()
          if state == "locked":
              await self.__lock(page)
          elif state == "unlocked":
              await self.__unlock(page)
          else:
              print_error("Lock state is required, ...")
              return 0
          pages = [...]; fragments = [...]
          paths = ...
          print_info(f"State: {state}")
          print_info(f"Number of URLs: {len(paths)}")
          success = True
          for path in paths: ...
          if not success:
              await self.__close(tmp)
  \<close>
  The function returns \<open>0\<close> from the branch of the error and \<open>None\<close> otherwise.
  \<open>access_control_scan\<close> is what follows the choice of the state: the catalog, the two
  lines of information, the loop and the closing of the last page.
\<close>

definition access_control_scan ::
  "'b env \<Rightarrow> sandbox \<Rightarrow> string \<Rightarrow> ('b, int option) prog" where
  "access_control_scan env sb state =
     (let paths = target_catalog pages fragments in
      bnd (print_info (''State: '' @ state)) (\<lambda>u.
      bnd (print_info (''Number of URLs: '' @ str_nat (length paths))) (\<lambda>u.
      bnd (access_control_loop env sb state True None paths) (\<lambda>(success, tmp).
      bnd (if \<not> success then
             (case tmp of
                None \<Rightarrow> raise (Uncaught ''UnboundLocalError'')
              | Some t \<Rightarrow> close env t True)
           else ret ()) (\<lambda>u.
      ret None)))))"

definition access_control :: "'b env \<Rightarrow> sandbox \<Rightarrow> kwargs \<Rightarrow> ('b, int option) prog" where
  "access_control env sb kw =
     bnd (new_page env) (\<lambda>pg.
     bnd (goto_browser_extension env sb pg []) (\<lambda>u.
     bnd (is_created env pg) (\<lambda>c.
     if c then
       (let state = lower (get_extra_value kw) in
        if state = ''locked'' then
          bnd (lock_wallet env sb pg) (\<lambda>u. access_control_scan env sb state)
        else if state = ''unlocked'' then
          bnd (unlock_wallet env sb pg []) (\<lambda>u. access_control_scan env sb state)
        else
          bnd (print_error state_required) (\<lambda>u. ret (Some 0)))
     else ret None)))"

section \<open>\<open>Test.run\<close>\<close>

text \<open>
  \<open>getattr(self.sandbox, self.test)(value = self.value)\<close>: the flow of that name. The
  seven flows are the only attributes of a \<open>Sandbox\<close> that accept the keyword \<open>value\<close>.
  Every other attribute the object has (the fields its constructor assigns, its other
  methods, whose private names Python stores with the prefix \<open>_Sandbox\<close>, and what it
  inherits from \<open>object\<close>) is found by \<open>getattr\<close> and raises \<open>TypeError\<close> when called
  with \<open>value\<close>; a name the object does not have raises \<open>AttributeError\<close>.
\<close>

definition sandbox_fields :: "string list" where
  "sandbox_fields =
     [''browser'', ''session'', ''extension'', ''dev'', ''proxy'', ''playwright'', ''context'',
      ''timeout'', ''user_agent'', ''settings'']"

definition sandbox_methods :: "string list" where
  "sandbox_methods =
     [''__init__'', ''browser_start'', ''browser_stop'']
     @ map (\<lambda>name. ''_Sandbox__'' @ name)
         [''get_url'', ''new_page'', ''close'', ''wait'', ''goto'', ''goto_browser_extension'',
          ''save_file'', ''handle_downloads'', ''accept_popups'', ''locate'', ''get_text'',
          ''get_size'', ''is_enabled'', ''is_visible'', ''fill'', ''fill_sequentially'', ''tick'',
          ''submit'', ''create_password_submit'', ''fill_password_submit'',
          ''fill_sequentially_password_submit'', ''fill_email_submit'', ''fill_text_submit'',
          ''fill_sequentially_text_submit'', ''get_cookie'', ''webhook_start'',
          ''webhook_get_email_text'', ''created'', ''is_created'', ''is_not_created'', ''locked'',
          ''unlock'', ''lock'']"

definition object_attributes :: "string list" where
  "object_attributes =
     map (\<lambda>name. ''__'' @ name @ ''__'')
       [''class'', ''delattr'', ''dict'', ''dir'', ''doc'', ''eq'', ''format'', ''ge'',
        ''getattribute'', ''getstate'', ''gt'', ''hash'', ''init_subclass'', ''le'', ''lt'',
        ''module'', ''ne'', ''new'', ''reduce'', ''reduce_ex'', ''repr'', ''setattr'', ''sizeof'',
        ''str'', ''subclasshook'', ''weakref'']"

definition flow :: "'b env \<Rightarrow> sandbox \<Rightarrow> string \<Rightarrow> kwargs \<Rightarrow> ('b, unit) prog" where
  "flow env sb test kw =
     (if test = ''open'' then open_flow env sb kw
      else if test = ''create'' then create env sb kw
      else if test = ''existing'' then existing env sb kw
      else if test = ''unlock'' then unlock env sb kw
      else if test = ''unlock_brute_force'' then unlock_brute_force env sb kw
      else if test = ''idle_lock'' then idle_lock env sb kw
      else if test = ''access_control'' then bnd (access_control env sb kw) (\<lambda>r. ret ())
      else if test \<in> set (sandbox_fields @ sandbox_methods @ object_attributes)
        then raise (Uncaught ''TypeError'')
      else raise (Uncaught ''AttributeError''))"

definition caught :: "failure \<Rightarrow> bool" where
  "caught e \<longleftrightarrow> (case e of Uncaught x \<Rightarrow> False | _ \<Rightarrow> True)"

definition message :: "failure \<Rightarrow> string" where
  "message e =
     (case e of
        PlaywrightTargetClosedError m \<Rightarrow> m
      | PlaywrightTimeoutError m \<Rightarrow> m
      | PlaywrightError m \<Rightarrow> m
      | KeyboardInterrupt \<Rightarrow> []
      | Uncaught m \<Rightarrow> m)"

definition print :: "string \<Rightarrow> ('b, unit) prog" where
  "print text w = (Inr (), w, [Print text])"

text \<open>
  \<^verbatim>\<open>
  def run(self):
      try:
          print_info("Press CTRL + C to exit early")
          self.event_loop.run_until_complete(self.sandbox.browser_start())
          self.event_loop.run_until_complete(
              getattr(self.sandbox, self.test)(value = self.value))
          print_action("Done, press any key to exit...")
      except (PlaywrightTargetClosedError, PlaywrightTimeoutError, PlaywrightError,
              KeyboardInterrupt) as ex:
          print(ex)
      finally:
          self.event_loop.run_until_complete(self.sandbox.browser_stop())
          self.event_loop.stop()
          self.event_loop.close()
  \<close>
\<close>

definition run :: "'b env \<Rightarrow> sandbox \<Rightarrow> string \<Rightarrow> string \<Rightarrow> ('b, unit) prog" where
  "run env sb test v =
     try_finally
       (try_except
          (bnd (print_info ''Press CTRL + C to exit early'') (\<lambda>u.
           bnd (browser_start env sb) (\<lambda>u.
           bnd (flow env sb test [''value'' \<mapsto> v]) (\<lambda>u.
           bnd (print_action env ''Done, press any key to exit...'') (\<lambda>line.
           ret ())))))
          caught
          (\<lambda>ex. print (message ex)))
       (browser_stop env)"


section \<open>What a run shows\<close>

subsection \<open>The catalog as a cross product\<close>

text \<open>
  The catalog in the words of its description: every page, each followed by the page with
  every fragment appended to it. \<open>page_names\<close> and \<open>fragment_names\<close> are the entries of the
  two lists in the form in which the script uses them (a page as \<open>/name.html\<close>, a fragment
  without its \<open>#\<close>), the entries that have no name left out.
\<close>

definition cross_product :: "string list \<Rightarrow> string list \<Rightarrow> string list" where
  "cross_product pgs frs = concat (map (\<lambda>pg. pg # map (\<lambda>fr. pg @ ''#'' @ fr) frs) pgs)"

definition page_names :: "string list \<Rightarrow> string list" where
  "page_names pgs =
     map (\<lambda>pg. ''/'' @ pg @ ''.html'')
       (filter (\<lambda>pg. pg \<noteq> []) (map (\<lambda>pg. strip_slash (split_first ''.html'' pg)) pgs))"

definition fragment_names :: "string list \<Rightarrow> string list" where
  "fragment_names frs =
     filter (\<lambda>fr. fr \<noteq> []) (map (\<lambda>fr. strip_slash (rsplit_last CHR ''#'' fr)) frs)"

subsection \<open>What the operator would see of a probe\<close>

text \<open>
  Of the events of a run, the ones the claims about the brute-force probe speak of: a
  password typed into the password field (\<open>Tried\<close>), an answer to the question whether
  the unlock button is visible, which is how the script asks whether the wallet is locked
  (\<open>Oracle\<close>, \<open>True\<close> for locked), and a line on the console (\<open>Said\<close>). A call that
  raised gave no answer.
\<close>

datatype move = Tried string | Oracle bool | Said severity string

fun move_of :: "event \<Rightarrow> move list" where
  "move_of (Call (Fill pg loc v) r) = (if loc = Locator css_password [] then [Tried v] else [])"
| "move_of (Call (IsVisible pg loc) (Inr (Flag b))) =
     (if loc = Locator ''button'' ''unlock'' then [Oracle b] else [])"
| "move_of (Console sev text) = [Said sev text]"
| "move_of e = []"

definition moves :: "event list \<Rightarrow> move list" where
  "moves es = concat (map move_of es)"

fun tried_of :: "move \<Rightarrow> string list" where
  "tried_of (Tried p) = [p]"
| "tried_of m = []"

definition tried :: "event list \<Rightarrow> string list" where
  "tried es = concat (map tried_of (moves es))"

text \<open>The moves of trying each password of a list and finding the wallet still locked.\<close>

definition still_locked :: "string list \<Rightarrow> move list" where
  "still_locked ps = concat (map (\<lambda>p. [Tried p, Oracle True]) ps)"

text \<open>The answers to the question whether the wallet is locked, in order.\<close>

fun answer_of :: "move \<Rightarrow> bool list" where
  "answer_of (Oracle b) = [b]"
| "answer_of m = []"

definition oracle_answers :: "event list \<Rightarrow> bool list" where
  "oracle_answers es = concat (map answer_of (moves es))"

text \<open>The number of tries after which the wallet was still locked.\<close>

definition failed_attempts :: "event list \<Rightarrow> nat" where
  "failed_attempts es = length (filter (\<lambda>m. m = Oracle True) (moves es))"

text \<open>What \<open>read_array\<close> returns for a file with the text \<open>text\<close>.\<close>

definition nonblank_lines :: "string \<Rightarrow> string list" where
  "nonblank_lines text = stripped_lines (stream_lines False [] text)"

definition candidates :: "string \<Rightarrow> string list" where
  "candidates text = unique (nonblank_lines text) False"

definition words_loaded :: "nat \<Rightarrow> string" where
  "words_loaded n = ''Number of words loaded: '' @ str_nat n"

text \<open>
  The ways in which the loop of the probe can end, told by its result \<open>r\<close> and its moves
  \<open>ms\<close>, for the list \<open>cs\<close> of candidates. \<open>exhausted\<close>: every candidate was tried and
  the wallet was locked after each. \<open>found\<close>: the candidates before the one at position
  \<open>k\<close> were tried and left the wallet locked, that one was tried, the wallet was no longer
  locked, the candidate was reported and nothing was tried after it. \<open>interrupted\<close>: a
  call raised during the try of the candidate at position \<open>k\<close> or while asking for the
  state after it.
\<close>

definition exhausted :: "string list \<Rightarrow> failure + unit \<Rightarrow> move list \<Rightarrow> bool" where
  "exhausted cs r ms \<longleftrightarrow> r = Inr () \<and> ms = still_locked cs"

definition found :: "string list \<Rightarrow> nat \<Rightarrow> failure + unit \<Rightarrow> move list \<Rightarrow> bool" where
  "found cs k r ms \<longleftrightarrow>
     k < length cs \<and> r = Inr () \<and>
     ms = still_locked (take k cs)
       @ [Tried (cs ! k), Oracle False, Said Alert (''Unlocked: '' @ cs ! k)]"

definition interrupted :: "string list \<Rightarrow> nat \<Rightarrow> failure + unit \<Rightarrow> move list \<Rightarrow> bool" where
  "interrupted cs k r ms \<longleftrightarrow>
     k < length cs \<and> (\<exists>e. r = Inl e) \<and> ms = still_locked (take k cs) @ [Tried (cs ! k)]"

text \<open>
  The probe stops before its loop when a call raises while it opens the home page or
  locks the wallet (the wallet may have answered that it is not locked by then), or when
  there is no wallet.
\<close>

definition stopped_early :: "failure + unit \<Rightarrow> move list \<Rightarrow> bool" where
  "stopped_early r ms \<longleftrightarrow>
     (\<exists>e. r = Inl e) \<and> (ms = [] \<or> ms = [Oracle False])
     \<or> r = Inr () \<and> ms = [Said Error ''Wallet is not created'']"

text \<open>
  What the script did to the pages: every field it filled, every element it clicked and
  every element it asked about, in order, whether the call returned or raised.
\<close>

datatype action = Filled locator string | Clicked locator | Asked locator

fun action_of :: "event \<Rightarrow> action list" where
  "action_of (Call (Fill pg loc v) r) = [Filled loc v]"
| "action_of (Call (Click pg loc) r) = [Clicked loc]"
| "action_of (Call (IsVisible pg loc) r) = [Asked loc]"
| "action_of e = []"

definition actions :: "event list \<Rightarrow> action list" where
  "actions es = concat (map action_of es)"

text \<open>
  One attempt of the probe with the candidate \<open>p\<close>, as the loop makes it:
  \<open>__fill_password_submit(page, password, "button", "unlock")\<close>, which fills the password
  field and clicks the unlock button, then \<open>__locked(page)\<close>. Before the loop the probe
  asks whether there is a wallet and whether it is locked.
\<close>

definition attempt :: "string \<Rightarrow> action list" where
  "attempt p =
     [Filled (Locator css_password []) p, Clicked (Locator ''button'' ''unlock''),
      Asked (Locator ''button'' ''unlock'')]"

definition opening_questions :: "action list" where
  "opening_questions =
     [Asked (Locator ''button'' ''create a new wallet''), Asked (Locator ''button'' ''unlock'')]"

text \<open>The element \<open>__unlock\<close> looks for after it has submitted the password.\<close>

definition popover_close :: locator where
  "popover_close = Locator ''button[data-testid=popover-close]'' []"

subsection \<open>What the operator would see of a scan\<close>

text \<open>The addresses the script navigated to, in order.\<close>

fun visit_of :: "event \<Rightarrow> string list" where
  "visit_of (Call (Goto pg url) r) = [url]"
| "visit_of e = []"

definition visits :: "event list \<Rightarrow> string list" where
  "visits es = concat (map visit_of es)"

text \<open>
  The size a round of the scan measured: the length of the text it read from the root
  content region, and 0 when it read none (the region was not visible).
\<close>

fun text_of :: "event \<Rightarrow> string list" where
  "text_of (Call (TextContent pg loc) (Inr (Text t))) =
     (if loc = Locator ''div[id=app-content]'' [] then [t] else [])"
| "text_of e = []"

definition texts :: "event list \<Rightarrow> string list" where
  "texts es = concat (map text_of es)"

definition measured_size :: "event list \<Rightarrow> nat" where
  "measured_size es = (case texts es of [] \<Rightarrow> 0 | t # ts \<Rightarrow> length t)"

text \<open>
  The affordance that has to be visible in a state: the unlock button when the wallet
  is to be locked, the balance overview when it is to be unlocked. It was seen when a
  call answered that it is visible.
\<close>

definition affordance :: "string \<Rightarrow> locator" where
  "affordance state =
     (if state = ''locked'' then Locator ''button'' ''unlock''
      else Locator ''div[class=wallet-overview__balance]'' [])"

fun seen_of :: "locator \<Rightarrow> event \<Rightarrow> bool" where
  "seen_of a (Call (IsVisible pg loc) (Inr (Flag b))) = (loc = a \<and> b)"
| "seen_of a e = False"

definition was_seen :: "locator \<Rightarrow> event list \<Rightarrow> bool" where
  "was_seen a es = list_ex (seen_of a) es"

definition affordance_seen :: "string \<Rightarrow> event list \<Rightarrow> bool" where
  "affordance_seen state es = was_seen (affordance state) es"

fun alert_of :: "event \<Rightarrow> string list" where
  "alert_of (Console Alert text) = [text]"
| "alert_of e = []"

definition alerts :: "event list \<Rightarrow> string list" where
  "alerts es = concat (map alert_of es)"

fun info_of :: "event \<Rightarrow> string list" where
  "info_of (Console Info text) = [text]"
| "info_of e = []"

definition infos :: "event list \<Rightarrow> string list" where
  "infos es = concat (map info_of es)"

definition state_line :: "string \<Rightarrow> event" where
  "state_line state = Console Info (''State: '' @ state)"

definition urls_line :: "nat \<Rightarrow> event" where
  "urls_line n = Console Info (''Number of URLs: '' @ str_nat n)"

subsection \<open>What the operator would see of the browser\<close>

fun is_teardown :: "event \<Rightarrow> bool" where
  "is_teardown (Call ContextClose r) = True"
| "is_teardown (Call PlaywrightStop r) = True"
| "is_teardown e = False"

definition launched :: "event list \<Rightarrow> bool" where
  "launched es \<longleftrightarrow> Call LaunchPersistentContext (Inr Done) \<in> set es"

text \<open>
  The calls that start and stop the browser, and the programs that make none of them and
  leave \<open>self.context\<close> and \<open>self.playwright\<close> as they are: every flow is one.
\<close>

fun is_lifecycle :: "event \<Rightarrow> bool" where
  "is_lifecycle (Call LaunchPersistentContext r) = True"
| "is_lifecycle (Call ContextClose r) = True"
| "is_lifecycle (Call PlaywrightStop r) = True"
| "is_lifecycle e = False"

definition tame :: "('b, 'a) prog \<Rightarrow> bool" where
  "tame m \<longleftrightarrow>
     (\<forall>w. \<not> list_ex is_lifecycle (events (m w))
        \<and> self_context (after (m w)) = self_context w
        \<and> self_playwright (after (m w)) = self_playwright w)"

text \<open>The line a flow prints when the value it needs was not passed.\<close>

definition required :: "string \<Rightarrow> string" where
  "required test =
     (if test = ''existing'' then mnemonic_required
      else if test = ''unlock_brute_force'' then wordlist_required
      else state_required)"

text \<open>
  The events of opening the home page and asking whether a wallet exists, with which
  every probe begins, and a line of error.
\<close>

fun is_opening :: "string \<Rightarrow> event \<Rightarrow> bool" where
  "is_opening base (Call NewPage r) = True"
| "is_opening base (Call (Goto pg url) r) = (url = extension_url base [])"
| "is_opening base (Call (Sleep n) r) = True"
| "is_opening base (Call (WaitForLoadState pg) r) = True"
| "is_opening base (Call (IsVisible pg loc) r) = (loc = Locator ''button'' ''create a new wallet'')"
| "is_opening base (Console Error text) = True"
| "is_opening base e = False"

section \<open>A wallet to run the script against\<close>

text \<open>
  An environment to run the definitions on: a wallet with a password, locked or not, whose
  pages show the unlock button while it is locked, except at the addresses listed in
  \<open>w_open\<close>, which show their content in every state. Unlocking it opens a popover,
  which stays until its close button is clicked. \<open>w_fault\<close> makes chosen calls
  raise. The file \<open>wordlist.txt\<close> holds the three words \<open>a\<close>, \<open>Password123!\<close>
  and \<open>b\<close>, one per line; the file \<open>spaced.txt\<close> holds \<open>a\<close>, \<open>b\<close>, \<open>a\<close> and
  \<open>c\<close> with white space around them, blank lines between them and mixed line endings.
\<close>

record wallet =
  w_created :: bool
  w_locked :: bool
  w_secret :: string
  w_typed :: string
  w_pages :: nat
  w_url :: "page \<Rightarrow> string"
  w_open :: "string list"
  w_popover :: bool
  w_fault :: "request \<Rightarrow> failure option"

definition wallet_perform :: "request \<Rightarrow> wallet \<Rightarrow> (failure + unit) \<times> wallet" where
  "wallet_perform req b =
     (case w_fault b req of
        Some e \<Rightarrow> (Inl e, b)
      | None \<Rightarrow>
          (Inr (),
           case req of
             Goto pg url \<Rightarrow>
               b\<lparr>w_url := (w_url b)(pg := url),
                 w_locked := (if suffix ''#lock'' url then True else w_locked b)\<rparr>
           | Fill pg loc v \<Rightarrow> (if css loc = css_password then b\<lparr>w_typed := v\<rparr> else b)
           | Click pg loc \<Rightarrow>
               (if loc = Locator ''button'' ''unlock'' \<and> w_locked b \<and> w_typed b = w_secret b
                  then b\<lparr>w_locked := False, w_popover := True\<rparr>
                else if loc = popover_close then b\<lparr>w_popover := False\<rparr>
                else b)
           | _ \<Rightarrow> b))"

definition wallet_is_visible ::
  "page \<Rightarrow> locator \<Rightarrow> wallet \<Rightarrow> (failure + bool) \<times> wallet" where
  "wallet_is_visible pg loc b =
     (case w_fault b (IsVisible pg loc) of
        Some e \<Rightarrow> (Inl e, b)
      | None \<Rightarrow>
          (Inr (if loc = Locator ''button'' ''create a new wallet'' then \<not> w_created b
                else if loc = Locator ''button'' ''unlock''
                  then w_created b \<and> w_locked b \<and> w_url b pg \<notin> set (w_open b)
                else if loc = Locator ''div[id=app-content]'' [] then True
                else if loc = Locator ''div[class=wallet-overview__balance]'' []
                  then w_created b \<and> \<not> w_locked b
                else if loc = popover_close then w_popover b
                else False), b))"

definition wallet_text_content ::
  "page \<Rightarrow> locator \<Rightarrow> wallet \<Rightarrow> (failure + string) \<times> wallet" where
  "wallet_text_content pg loc b =
     (case w_fault b (TextContent pg loc) of
        Some e \<Rightarrow> (Inl e, b)
      | None \<Rightarrow>
          (Inr (if w_url b pg \<in> set (w_open b) \<or> \<not> w_locked b then ''0 ETH''
                else ''Unlock''), b))"

definition wordlist_text :: string where
  "wordlist_text = ''a'' @ [CHR 0x0A] @ ''Password123!'' @ [CHR 0x0A] @ ''b'' @ [CHR 0x0A]"

definition spaced_text :: string where
  "spaced_text =
     '' a '' @ [CHR 0x0D, CHR 0x0A] @ [CHR 0x0A] @ ''  '' @ [CHR 0x0D] @ ''b'' @ [CHR 0x0A]
       @ ''a'' @ [CHR 0x09, CHR 0x0A] @ ''c''"

definition wallet_env :: "wallet env" where
  "wallet_env =
     \<lparr>env_perform = wallet_perform,
      env_is_visible = wallet_is_visible,
      env_text_content = wallet_text_content,
      env_new_page = (\<lambda>b. (Inr (w_pages b), b\<lparr>w_pages := Suc (w_pages b)\<rparr>)),
      env_background_url = (\<lambda>b. (Inr ''chrome-extension://wallet/background.js'', b)),
      env_input = (\<lambda>b. (Inr [], b)),
      env_file = (\<lambda>f. if f = ''wordlist.txt'' then Contents wordlist_text
                       else if f = ''spaced.txt'' then Contents spaced_text
                       else Missing)\<rparr>"

definition wallet0 :: wallet where
  "wallet0 =
     \<lparr>w_created = True, w_locked = False, w_secret = ''Password123!'', w_typed = [],
      w_pages = 0, w_url = (\<lambda>pg. []), w_open = [], w_popover = False,
      w_fault = (\<lambda>req. None)\<rparr>"

text \<open>
  \<open>world0\<close> is the script before \<open>browser_start\<close>: no driver, no browser context.
  \<open>started_world0\<close> is what \<open>browser_start\<close> leaves: both are there and the base address
  of the extension is known. In \<open>locked_world0\<close> the page \<open>0\<close> is open besides and the
  wallet is locked.
\<close>

definition world0 :: "wallet world" where
  "world0 = \<lparr>browser = wallet0, self_playwright = False, self_context = False, url_base = []\<rparr>"

definition started_world0 :: "wallet world" where
  "started_world0 =
     \<lparr>browser = wallet0, self_playwright = True, self_context = True,
      url_base = ''chrome-extension://wallet''\<rparr>"

definition locked_world0 :: "wallet world" where
  "locked_world0 = started_world0\<lparr>browser := wallet0\<lparr>w_locked := True, w_pages := 1\<rparr>\<rparr>"

definition leaky_world0 :: "wallet world" where
  "leaky_world0 =
     \<lparr>browser = wallet0\<lparr>w_locked := True,
                         w_open := [''chrome-extension://wallet/home.html#send'',
                                    ''chrome-extension://wallet/home.html#settings'']\<rparr>,
      self_playwright = True, self_context = True,
      url_base = ''chrome-extension://wallet''\<rparr>"

definition sandbox0 :: sandbox where
  "sandbox0 =
     \<lparr>sb_browser = ''chromium'', sb_password = ''Password123!'', sb_wait_time = 2,
      sb_proxy = []\<rparr>"

section \<open>Properties\<close>

subsection \<open>\<open>unique\<close>\<close>

lemma set_unique_comprehension: "set (unique_comprehension seen xs) = set xs - seen"
  by (induction xs arbitrary: seen) auto

lemma distinct_unique_comprehension: "distinct (unique_comprehension seen xs)"
  by (induction xs arbitrary: seen) (auto simp: set_unique_comprehension)

lemma unique_comprehension_distinct:
  "distinct xs \<Longrightarrow> set xs \<inter> seen = {} \<Longrightarrow> unique_comprehension seen xs = xs"
  by (induction xs arbitrary: seen) auto

lemma unique_unsorted: "unique xs False = unique_comprehension {} xs"
  by (simp add: unique_def)

lemma distinct_unique: "distinct (unique xs False)"
  by (simp add: unique_unsorted distinct_unique_comprehension)

lemma set_unique: "set (unique xs False) = set xs"
  by (simp add: unique_unsorted set_unique_comprehension)

text \<open>
  Claim C8. Removing duplicates with \<open>unique\<close> (no sorting) a second time changes
  nothing: \<open>unique (unique xs) = unique xs\<close>, as lists, for every list \<open>xs\<close>.
\<close>

theorem unique_idempotent: "unique (unique xs False) False = unique xs False"
proof -
  have "distinct (unique_comprehension {} xs)"
    by (rule distinct_unique_comprehension)
  then have "unique_comprehension {} (unique_comprehension {} xs) = unique_comprehension {} xs"
    by (rule unique_comprehension_distinct) simp
  then show ?thesis
    by (simp add: unique_unsorted)
qed

subsection \<open>The target catalog\<close>

lemma fragment_paths_names:
  "fragment_paths pg frs = map (\<lambda>fr. pg @ ''#'' @ fr) (fragment_names frs)"
  by (induction frs) (simp_all add: fragment_names_def Let_def)

lemma page_paths_cross_product:
  "page_paths pgs frs = cross_product (page_names pgs) (fragment_names frs)"
  by (induction pgs)
    (simp_all add: fragment_paths_names cross_product_def page_names_def Let_def)

lemma page_names_pages: "page_names pages = pages"
  by (simp add: page_names_def pages_def strip_slash_def strip_chars_def
      lstrip_chars_def rstrip_chars_def)

lemma fragment_names_fragments: "map (\<lambda>fr. ''#'' @ fr) (fragment_names fragments) = fragments"
  by (simp add: fragment_names_def fragments_def strip_slash_def strip_chars_def
      lstrip_chars_def rstrip_chars_def rsplit_last_def)

text \<open>
  Claim C3. The target catalog is the cross product of the pages and the fragments, each
  page before its combinations with the fragments, with duplicates removed and the order
  kept. The two fixed lists of the scan are in the form the script uses, so that their
  catalog is made of the listed pages and fragments themselves. For the pages
  \<open>["/home.html"]\<close> and the fragments \<open>["#send", "#settings"]\<close> the catalog is
  \<open>["/home.html", "/home.html#send", "/home.html#settings"]\<close>.
\<close>

theorem target_catalog_cross_product:
  "target_catalog pgs frs = unique (cross_product (page_names pgs) (fragment_names frs)) False
   \<and> distinct (target_catalog pgs frs)
   \<and> page_names pages = pages
   \<and> map (\<lambda>fr. ''#'' @ fr) (fragment_names fragments) = fragments
   \<and> target_catalog [''/home.html''] [''#send'', ''#settings'']
       = [''/home.html'', ''/home.html#send'', ''/home.html#settings'']"
proof -
  have product: "target_catalog pgs frs
      = unique (cross_product (page_names pgs) (fragment_names frs)) False"
    by (simp add: target_catalog_def page_paths_cross_product)
  have no_duplicates: "distinct (target_catalog pgs frs)"
    by (simp add: target_catalog_def distinct_unique)
  have scenario: "target_catalog [''/home.html''] [''#send'', ''#settings'']
       = [''/home.html'', ''/home.html#send'', ''/home.html#settings'']"
    by (simp add: target_catalog_def unique_def strip_slash_def strip_chars_def
        lstrip_chars_def rstrip_chars_def rsplit_last_def)
  show ?thesis
    by (intro conjI product no_duplicates page_names_pages fragment_names_fragments scenario)
qed

subsection \<open>Sequencing and the calls\<close>

lemma bnd_ret [simp]: "bnd (ret x) f = f x"
  by (rule ext) (simp add: bnd_def ret_def split: prod.splits)

lemma bnd_raise [simp]: "bnd (raise e) f = raise e"
  by (rule ext) (simp add: bnd_def raise_def)

lemma bnd_get_world [simp]: "bnd get_world f w = f w w"
  by (simp add: bnd_def get_world_def split: prod.splits)

lemma bnd_cases:
  assumes "bnd m f w = (r, w', es)"
  obtains (raised) e where "m w = (Inl e, w', es)" and "r = Inl e"
  | (returned) x w1 es1 es2 where "m w = (Inr x, w1, es1)" and "f x w1 = (r, w', es2)"
      and "es = es1 @ es2"
  using assms by (auto simp: bnd_def split: prod.splits sum.splits)

lemma ret_cases:
  assumes "ret x w = (r, w', es)"
  obtains "r = Inr x" and "w' = w" and "es = []"
  using assms by (auto simp: ret_def)

lemma raise_cases:
  assumes "raise e w = (r, w', es)"
  obtains "r = Inl e" and "w' = w" and "es = []"
  using assms by (auto simp: raise_def)

lemma console_cases:
  assumes "console sev text w = (r, w', es)"
  obtains "r = Inr ()" and "w' = w" and "es = [Console sev text]"
  using assms by (auto simp: console_def)

lemma perform_cases:
  assumes "perform env req w = (r, w', es)"
  obtains (raised) e where "r = Inl e" and "es = [Call req (Inl e)]" and "url_base w' = url_base w"
  | (returned) "r = Inr ()" and "es = [Call req (Inr Done)]" and "url_base w' = url_base w"
proof (cases "fst (env_perform env req (browser w))")
  case (Inl e)
  with assms have "r = Inl e" "es = [Call req (Inl e)]" "url_base w' = url_base w"
    by (auto simp: perform_def split: prod.splits)
  then show ?thesis by (rule raised)
next
  case (Inr u)
  with assms have "r = Inr ()" "es = [Call req (Inr Done)]" "url_base w' = url_base w"
    by (auto simp: perform_def split: prod.splits)
  then show ?thesis by (rule returned)
qed

lemma query_visible_cases:
  assumes "query_visible env pg loc w = (r, w', es)"
  obtains (raised) e where "r = Inl e" and "es = [Call (IsVisible pg loc) (Inl e)]"
      and "url_base w' = url_base w"
  | (returned) b where "r = Inr b" and "es = [Call (IsVisible pg loc) (Inr (Flag b))]"
      and "url_base w' = url_base w"
proof (cases "fst (env_is_visible env pg loc (browser w))")
  case (Inl e)
  with assms have "r = Inl e" "es = [Call (IsVisible pg loc) (Inl e)]" "url_base w' = url_base w"
    by (auto simp: query_visible_def split: prod.splits)
  then show ?thesis by (rule raised)
next
  case (Inr b)
  with assms have "r = Inr b" "es = [Call (IsVisible pg loc) (Inr (Flag b))]"
      "url_base w' = url_base w"
    by (auto simp: query_visible_def split: prod.splits)
  then show ?thesis by (rule returned)
qed

lemma query_text_cases:
  assumes "query_text env pg loc w = (r, w', es)"
  obtains (raised) e where "r = Inl e" and "es = [Call (TextContent pg loc) (Inl e)]"
      and "url_base w' = url_base w"
  | (returned) t where "r = Inr t" and "es = [Call (TextContent pg loc) (Inr (Text t))]"
      and "url_base w' = url_base w"
proof (cases "fst (env_text_content env pg loc (browser w))")
  case (Inl e)
  with assms have "r = Inl e" "es = [Call (TextContent pg loc) (Inl e)]" "url_base w' = url_base w"
    by (auto simp: query_text_def split: prod.splits)
  then show ?thesis by (rule raised)
next
  case (Inr t)
  with assms have "r = Inr t" "es = [Call (TextContent pg loc) (Inr (Text t))]"
      "url_base w' = url_base w"
    by (auto simp: query_text_def split: prod.splits)
  then show ?thesis by (rule returned)
qed

lemma new_page_cases:
  assumes "new_page env w = (r, w', es)"
  obtains (raised) e where "r = Inl e" and "es = [Call NewPage (Inl e)]"
      and "url_base w' = url_base w"
  | (returned) pg where "r = Inr pg" and "es = [Call NewPage (Inr (Handle pg))]"
      and "url_base w' = url_base w"
  | (no_context) "r = Inl (Uncaught ''AttributeError'')" and "es = []" and "w' = w"
proof (cases "self_context w")
  case False
  with assms have "r = Inl (Uncaught ''AttributeError'')" "es = []" "w' = w"
    by (auto simp: new_page_def)
  then show ?thesis by (rule no_context)
next
  case True
  show ?thesis
  proof (cases "fst (env_new_page env (browser w))")
    case (Inl e)
    with assms True have "r = Inl e" "es = [Call NewPage (Inl e)]" "url_base w' = url_base w"
      by (auto simp: new_page_def split: prod.splits)
    then show ?thesis by (rule raised)
  next
    case (Inr pg)
    with assms True have "r = Inr pg" "es = [Call NewPage (Inr (Handle pg))]"
        "url_base w' = url_base w"
      by (auto simp: new_page_def split: prod.splits)
    then show ?thesis by (rule returned)
  qed
qed

lemmas call_cases = perform_cases query_visible_cases query_text_cases new_page_cases
  console_cases ret_cases raise_cases

subsection \<open>The brute-force probe\<close>

lemma moves_simps [simp]:
  "moves [] = []" "moves (e # es) = move_of e @ moves es" "moves (es @ fs) = moves es @ moves fs"
  by (simp_all add: moves_def)

lemma wait_moves: "wait env sb pg n w = (r, w', es) \<Longrightarrow> moves es = []"
  by (auto simp: wait_def elim!: bnd_cases call_cases split: if_splits)

lemma submit_moves: "submit env sb pg c t w = (r, w', es) \<Longrightarrow> moves es = []"
  by (auto simp: submit_def Let_def elim!: bnd_cases call_cases dest: wait_moves split: if_splits)

lemma goto_moves: "goto env sb pg url w = (r, w', es) \<Longrightarrow> moves es = []"
  by (auto simp: goto_def elim!: bnd_cases call_cases dest: wait_moves)

lemma goto_browser_extension_moves:
  "goto_browser_extension env sb pg path w = (r, w', es) \<Longrightarrow> moves es = []"
  by (auto simp: goto_browser_extension_def dest: goto_moves)

lemma new_page_moves: "new_page env w = (r, w', es) \<Longrightarrow> moves es = []"
  by (auto elim!: call_cases)

lemma fill_password_submit_moves:
  "fill_password_submit env sb pg p c t w = (r, w', es) \<Longrightarrow> p \<noteq> [] \<Longrightarrow> moves es = [Tried p]"
  by (auto simp: fill_password_submit_def fill_def Let_def locate_def css_password_def
      elim!: bnd_cases call_cases dest: submit_moves split: if_splits)

lemma locked_moves:
  "locked env pg w = (r, w', es) \<Longrightarrow> moves es = (case r of Inl e \<Rightarrow> [] | Inr b \<Rightarrow> [Oracle b])"
  by (auto simp: locked_def is_visible_def locate_def elim!: call_cases)

lemma is_created_moves:
  assumes "is_created env pg w = (r, w', es)"
  shows "(r = Inr True \<and> moves es = [])
       \<or> (r = Inr False \<and> moves es = [Said Error ''Wallet is not created''])
       \<or> ((\<exists>e. r = Inl e) \<and> moves es = [])"
  using assms
  by (auto simp: is_created_def created_def is_visible_def locate_def print_error_def
      elim!: bnd_cases call_cases split: if_splits)

lemma lock_wallet_moves:
  assumes "lock_wallet env sb pg w = (r, w', es)"
  shows "(\<exists>gate. r = Inr () \<and> moves es = [Oracle gate])
       \<or> ((\<exists>e. r = Inl e) \<and> (moves es = [] \<or> moves es = [Oracle False]))"
  using assms
  by (cases r)
    (auto simp: lock_wallet_def elim!: bnd_cases call_cases
      dest!: locked_moves goto_browser_extension_moves split: if_splits)

lemma read_array_contents:
  "env_file env file = Contents text \<Longrightarrow> text \<noteq> [] \<Longrightarrow>
   read_array env file False = ret (candidates text)"
  by (simp add: read_array_def candidates_def nonblank_lines_def)

lemma stripped_lines_nonempty: "[] \<notin> set (stripped_lines ls)"
  by (induction ls) (auto simp: Let_def)

lemma candidates_nonempty: "[] \<notin> set (candidates text)"
  by (simp add: candidates_def nonblank_lines_def set_unique stripped_lines_nonempty)

lemma loop_moves:
  assumes "unlock_brute_force_loop env sb pg ws w = (r, w', es)" and "[] \<notin> set ws"
  shows "exhausted ws r (moves es) \<or> (\<exists>k. found ws k r (moves es))
       \<or> (\<exists>k. interrupted ws k r (moves es))"
  using assms
proof (induction ws arbitrary: w r w' es)
  case Nil
  then show ?case by (simp add: ret_def still_locked_def exhausted_def)
next
  case (Cons p ws)
  from Cons.prems(2) have p: "p \<noteq> []" and ws: "[] \<notin> set ws" by auto
  from Cons.prems(1)
  have "bnd (fill_password_submit env sb pg p ''button'' ''unlock'') (\<lambda>u.
        bnd (locked env pg) (\<lambda>l.
          if \<not> l then print_alert (''Unlocked: '' @ p)
          else unlock_brute_force_loop env sb pg ws)) w = (r, w', es)"
    by simp
  then show ?case
  proof (cases rule: bnd_cases)
    case (raised e)
    from fill_password_submit_moves[OF raised(1) p] raised(2)
    have "interrupted (p # ws) 0 r (moves es)"
      by (simp add: interrupted_def still_locked_def)
    then show ?thesis by blast
  next
    case attempt: (returned u w1 es1 es2)
    note a = fill_password_submit_moves[OF attempt(1) p]
    from attempt(2) show ?thesis
    proof (cases rule: bnd_cases)
      case (raised e)
      from a locked_moves[OF raised(1)] raised(2) attempt(3)
      have "interrupted (p # ws) 0 r (moves es)"
        by (simp add: interrupted_def still_locked_def)
      then show ?thesis by blast
    next
      case check: (returned l w2 es3 es4)
      note b = locked_moves[OF check(1)]
      show ?thesis
      proof (cases l)
        case False
        with check attempt(3) a b have "found (p # ws) 0 r (moves es)"
          by (auto simp: print_alert_def console_def still_locked_def found_def)
        then show ?thesis by blast
      next
        case True
        with check have rest: "unlock_brute_force_loop env sb pg ws w2 = (r, w', es4)"
          by simp
        from True check(3) attempt(3) a b
        have ms: "moves es = Tried p # Oracle True # moves es4"
          by simp
        from Cons.IH[OF rest ws] show ?thesis
        proof (elim disjE exE)
          assume "exhausted ws r (moves es4)"
          with ms have "exhausted (p # ws) r (moves es)"
            by (simp add: exhausted_def still_locked_def)
          then show ?thesis by blast
        next
          fix k assume "found ws k r (moves es4)"
          with ms have "found (p # ws) (Suc k) r (moves es)"
            by (simp add: found_def still_locked_def)
          then show ?thesis by blast
        next
          fix k assume "interrupted ws k r (moves es4)"
          with ms have "interrupted (p # ws) (Suc k) r (moves es)"
            by (simp add: interrupted_def still_locked_def)
          then show ?thesis by blast
        qed
      qed
    qed
  qed
qed

lemma unlock_brute_force_moves:
  assumes "kw ''value'' = Some wordlist" and "wordlist \<noteq> []"
    and "env_file env wordlist = Contents text" and "text \<noteq> []"
    and run: "unlock_brute_force env sb kw w = (r, w', es)"
  shows "stopped_early r (moves es)
       \<or> (\<exists>gate ms. moves es
              = Oracle gate # Said Info (words_loaded (length (candidates text))) # ms
            \<and> (exhausted (candidates text) r ms
               \<or> (\<exists>k. found (candidates text) k r ms)
               \<or> (\<exists>k. interrupted (candidates text) k r ms)))"
proof -
  let ?cs = "candidates text"
  let ?rest = "\<lambda>pg. bnd (lock_wallet env sb pg) (\<lambda>u.
      bnd (print_info (words_loaded (length ?cs))) (\<lambda>u.
      unlock_brute_force_loop env sb pg ?cs))"
  from assms(1-4) run
  have "bnd (new_page env) (\<lambda>pg.
        bnd (goto_browser_extension env sb pg []) (\<lambda>u.
        bnd (is_created env pg) (\<lambda>c. if c then ?rest pg else ret ()))) w = (r, w', es)"
    by (simp add: unlock_brute_force_def get_extra_value_def read_array_contents
        words_loaded_def Let_def cong: if_cong)
  then show ?thesis
  proof (cases rule: bnd_cases)
    case (raised e)
    with new_page_moves[OF raised(1)] have "stopped_early r (moves es)"
      by (simp add: stopped_early_def)
    then show ?thesis ..
  next
    case page: (returned pg w1 es1 es2)
    note m1 = new_page_moves[OF page(1)]
    from page(2) show ?thesis
    proof (cases rule: bnd_cases)
      case (raised e)
      with m1 page(3) goto_browser_extension_moves[OF raised(1)]
      have "stopped_early r (moves es)"
        by (simp add: stopped_early_def)
      then show ?thesis ..
    next
      case home: (returned u w2 es3 es4)
      note m2 = goto_browser_extension_moves[OF home(1)]
      from home(2) show ?thesis
      proof (cases rule: bnd_cases)
        case (raised e)
        with m1 m2 page(3) home(3) is_created_moves[OF raised(1)]
        have "stopped_early r (moves es)"
          by (auto simp: stopped_early_def)
        then show ?thesis ..
      next
        case wallet: (returned c w3 es5 es6)
        note m3 = is_created_moves[OF wallet(1)]
        show ?thesis
        proof (cases c)
          case False
          with wallet m1 m2 m3 page(3) home(3) have "stopped_early r (moves es)"
            by (auto simp: stopped_early_def elim!: ret_cases)
          then show ?thesis ..
        next
          case True
          with wallet have "?rest pg w3 = (r, w', es6)" by simp
          then show ?thesis
          proof (cases rule: bnd_cases)
            case (raised e)
            with True m1 m2 m3 page(3) home(3) wallet(3) lock_wallet_moves[OF raised(1)]
            have "stopped_early r (moves es)"
              by (auto simp: stopped_early_def)
            then show ?thesis ..
          next
            case lock: (returned u w4 es7 es8)
            from lock_wallet_moves[OF lock(1)] obtain gate where m4: "moves es7 = [Oracle gate]"
              by auto
            from lock(2) obtain lp where
              loop: "unlock_brute_force_loop env sb pg ?cs w4 = (r, w', lp)"
              and es8: "es8 = Console Info (words_loaded (length ?cs)) # lp"
              by (auto simp: print_info_def elim!: bnd_cases call_cases)
            from True m1 m2 m3 m4 page(3) home(3) wallet(3) lock(3) es8
            have "moves es = Oracle gate # Said Info (words_loaded (length ?cs)) # moves lp"
              by auto
            with loop_moves[OF loop candidates_nonempty] show ?thesis
              by blast
          qed
        qed
      qed
    qed
  qed
qed

lemma actions_simps [simp]:
  "actions [] = []" "actions (e # es) = action_of e @ actions es"
  "actions (es @ fs) = actions es @ actions fs"
  by (simp_all add: actions_def)

lemma wait_actions: "wait env sb pg n w = (r, w', es) \<Longrightarrow> actions es = []"
  by (auto simp: wait_def elim!: bnd_cases call_cases split: if_splits)

lemma submit_actions:
  "submit env sb pg c t w = (r, w', es) \<Longrightarrow> c \<noteq> [] \<Longrightarrow> actions es = [Clicked (Locator c t)]"
  by (auto simp: submit_def Let_def locate_def elim!: bnd_cases call_cases dest: wait_actions)

lemma goto_actions: "goto env sb pg url w = (r, w', es) \<Longrightarrow> actions es = []"
  by (auto simp: goto_def elim!: bnd_cases call_cases dest: wait_actions)

lemma goto_browser_extension_actions:
  "goto_browser_extension env sb pg path w = (r, w', es) \<Longrightarrow> actions es = []"
  by (auto simp: goto_browser_extension_def dest: goto_actions)

lemma new_page_actions: "new_page env w = (r, w', es) \<Longrightarrow> actions es = []"
  by (auto elim!: call_cases)

lemma fill_password_submit_actions:
  assumes "fill_password_submit env sb pg p c t w = (r, w', es)" and "p \<noteq> []" and "c \<noteq> []"
  shows "((\<exists>e. r = Inl e) \<and> actions es = [Filled (Locator css_password []) p])
       \<or> actions es = [Filled (Locator css_password []) p, Clicked (Locator c t)]"
  using assms
  by (auto simp: fill_password_submit_def fill_def Let_def locate_def css_password_def
      elim!: bnd_cases call_cases dest: submit_actions split: if_splits)

lemma locked_actions:
  "locked env pg w = (r, w', es) \<Longrightarrow> actions es = [Asked (Locator ''button'' ''unlock'')]"
  by (auto simp: locked_def is_visible_def locate_def elim!: call_cases)

lemma is_created_actions:
  "is_created env pg w = (r, w', es) \<Longrightarrow>
   actions es = [Asked (Locator ''button'' ''create a new wallet'')]"
  by (auto simp: is_created_def created_def is_visible_def locate_def print_error_def
      elim!: bnd_cases call_cases split: if_splits)

lemma lock_wallet_actions:
  "lock_wallet env sb pg w = (r, w', es) \<Longrightarrow> actions es = [Asked (Locator ''button'' ''unlock'')]"
  by (auto simp: lock_wallet_def elim!: bnd_cases call_cases
      dest!: locked_actions goto_browser_extension_actions split: if_splits)

lemma loop_actions:
  assumes "unlock_brute_force_loop env sb pg ws w = (r, w', es)" and "[] \<notin> set ws"
  shows "prefix (actions es) (concat (map attempt ws))"
  using assms
proof (induction ws arbitrary: w r w' es)
  case Nil
  then show ?case by (simp add: ret_def)
next
  case (Cons p ws)
  from Cons.prems(2) have p: "p \<noteq> []" and ws: "[] \<notin> set ws" by auto
  from Cons.prems(1)
  have "bnd (fill_password_submit env sb pg p ''button'' ''unlock'') (\<lambda>u.
        bnd (locked env pg) (\<lambda>l.
          if \<not> l then print_alert (''Unlocked: '' @ p)
          else unlock_brute_force_loop env sb pg ws)) w = (r, w', es)"
    by simp
  then show ?case
  proof (cases rule: bnd_cases)
    case (raised e)
    from fill_password_submit_actions[OF raised(1) p] show ?thesis
      by (auto simp: attempt_def)
  next
    case att: (returned u w1 es1 es2)
    from fill_password_submit_actions[OF att(1) p]
    have a: "actions es1
        = [Filled (Locator css_password []) p, Clicked (Locator ''button'' ''unlock'')]"
      by simp
    from att(2) show ?thesis
    proof (cases rule: bnd_cases)
      case (raised e)
      with a locked_actions[OF raised(1)] att(3) show ?thesis
        by (simp add: attempt_def)
    next
      case check: (returned l w2 es3 es4)
      note b = locked_actions[OF check(1)]
      show ?thesis
      proof (cases l)
        case False
        with check att(3) a b show ?thesis
          by (auto simp: print_alert_def console_def attempt_def)
      next
        case True
        with check have rest: "unlock_brute_force_loop env sb pg ws w2 = (r, w', es4)"
          by simp
        from True check(3) att(3) a b
        have "actions es = attempt p @ actions es4"
          by (simp add: attempt_def)
        with Cons.IH[OF rest ws] show ?thesis
          by simp
      qed
    qed
  qed
qed

lemma unlock_brute_force_actions:
  assumes "kw ''value'' = Some wordlist" and "wordlist \<noteq> []"
    and "env_file env wordlist = Contents text" and "text \<noteq> []"
    and run: "unlock_brute_force env sb kw w = (r, w', es)"
  shows "prefix (actions es) (opening_questions @ concat (map attempt (candidates text)))"
proof -
  let ?cs = "candidates text"
  let ?rest = "\<lambda>pg. bnd (lock_wallet env sb pg) (\<lambda>u.
      bnd (print_info (words_loaded (length ?cs))) (\<lambda>u.
      unlock_brute_force_loop env sb pg ?cs))"
  from assms(1-4) run
  have "bnd (new_page env) (\<lambda>pg.
        bnd (goto_browser_extension env sb pg []) (\<lambda>u.
        bnd (is_created env pg) (\<lambda>c. if c then ?rest pg else ret ()))) w = (r, w', es)"
    by (simp add: unlock_brute_force_def get_extra_value_def read_array_contents
        words_loaded_def Let_def cong: if_cong)
  then show ?thesis
  proof (cases rule: bnd_cases)
    case (raised e)
    with new_page_actions[OF raised(1)] show ?thesis by simp
  next
    case page: (returned pg w1 es1 es2)
    note m1 = new_page_actions[OF page(1)]
    from page(2) show ?thesis
    proof (cases rule: bnd_cases)
      case (raised e)
      with m1 page(3) goto_browser_extension_actions[OF raised(1)] show ?thesis by simp
    next
      case home: (returned u w2 es3 es4)
      note m2 = goto_browser_extension_actions[OF home(1)]
      from home(2) show ?thesis
      proof (cases rule: bnd_cases)
        case (raised e)
        with m1 m2 page(3) home(3) is_created_actions[OF raised(1)] show ?thesis
          by (simp add: opening_questions_def)
      next
        case wallet: (returned c w3 es5 es6)
        note m3 = is_created_actions[OF wallet(1)]
        show ?thesis
        proof (cases c)
          case False
          with wallet m1 m2 m3 page(3) home(3) show ?thesis
            by (auto simp: opening_questions_def elim!: ret_cases)
        next
          case True
          with wallet have "?rest pg w3 = (r, w', es6)" by simp
          then show ?thesis
          proof (cases rule: bnd_cases)
            case (raised e)
            with True m1 m2 m3 page(3) home(3) wallet(3) lock_wallet_actions[OF raised(1)]
            show ?thesis
              by (simp add: opening_questions_def)
          next
            case lock: (returned u w4 es7 es8)
            note m4 = lock_wallet_actions[OF lock(1)]
            from lock(2) obtain lp where
              loop: "unlock_brute_force_loop env sb pg ?cs w4 = (r, w', lp)"
              and es8: "es8 = Console Info (words_loaded (length ?cs)) # lp"
              by (auto simp: print_info_def elim!: bnd_cases call_cases)
            from True m1 m2 m3 m4 page(3) home(3) wallet(3) lock(3) es8
            have "actions es = opening_questions @ actions lp"
              by (simp add: opening_questions_def)
            with loop_actions[OF loop candidates_nonempty] show ?thesis
              by simp
          qed
        qed
      qed
    qed
  qed
qed

lemma outcome_events:
  obtains r w' es where "t = (r, w', es)" and "outcome t = r" and "events t = es"
  by (cases t) (auto simp: outcome_def events_def)

text \<open>
  Claim C1. For a wordlist file that is not empty, the brute-force probe ends (the
  definitions are total: the loop is a recursion on the list of candidates), and its moves
  are one of these. It stops before trying anything; or, after locking the wallet and
  printing the number of candidates, it tries the candidates of \<open>read_array\<close>, a list
  without duplicates in the order of the file, from the first on, each once, asks after
  each try whether the wallet is still locked, and ends in one of three ways:
  every candidate was tried and left the wallet locked, and the probe returns with no
  error and no report; or the first candidate after which the wallet is not locked is
  reported and nothing is tried after it; or a call raised during a try.

  A try is \<open>__fill_password_submit\<close>: the candidate is filled into the password field and
  the unlock button is clicked. All that the probe fills, clicks and asks about is an
  initial part of: is there a wallet, is it locked, and then for each candidate in turn
  fill, click, is it locked. So the popover that \<open>__unlock\<close> closes after a successful
  unlock is neither asked about nor closed.
\<close>

theorem unlock_brute_force_probe:
  assumes "kw ''value'' = Some wordlist" and "wordlist \<noteq> []"
    and "env_file env wordlist = Contents text" and "text \<noteq> []"
  shows "distinct (candidates text) \<and>
    prefix (actions (events (unlock_brute_force env sb kw w)))
      (opening_questions @ concat (map attempt (candidates text))) \<and>
    (stopped_early (outcome (unlock_brute_force env sb kw w))
       (moves (events (unlock_brute_force env sb kw w)))
     \<or> (\<exists>gate ms.
          moves (events (unlock_brute_force env sb kw w))
            = Oracle gate # Said Info (words_loaded (length (candidates text))) # ms
          \<and> (exhausted (candidates text) (outcome (unlock_brute_force env sb kw w)) ms
             \<or> (\<exists>k. found (candidates text) k (outcome (unlock_brute_force env sb kw w)) ms)
             \<or> (\<exists>k. interrupted (candidates text) k
                       (outcome (unlock_brute_force env sb kw w)) ms))))"
proof -
  obtain r w' es where run: "unlock_brute_force env sb kw w = (r, w', es)"
    and r: "outcome (unlock_brute_force env sb kw w) = r"
    and es: "events (unlock_brute_force env sb kw w) = es"
    by (rule outcome_events)
  have "distinct (candidates text)"
    by (simp add: candidates_def distinct_unique)
  with unlock_brute_force_moves[OF assms run] unlock_brute_force_actions[OF assms run]
  show ?thesis
    unfolding r es by blast
qed

text \<open>
  The probe on the wallet whose password is the second of the three words of
  \<open>wordlist.txt\<close>, after \<open>browser_start\<close>.
\<close>

theorem unlock_brute_force_probe_witness:
  "[''value'' \<mapsto> ''wordlist.txt''] ''value'' = Some ''wordlist.txt''
   \<and> env_file wallet_env ''wordlist.txt'' = Contents wordlist_text
   \<and> wordlist_text \<noteq> []
   \<and> self_context started_world0
   \<and> candidates wordlist_text = [''a'', ''Password123!'', ''b'']
   \<and> moves (events (unlock_brute_force wallet_env sandbox0 [''value'' \<mapsto> ''wordlist.txt''] started_world0))
       = [Oracle False, Said Info ''Number of words loaded: 3'',
          Tried ''a'', Oracle True, Tried ''Password123!'', Oracle False,
          Said Alert ''Unlocked: Password123!'']
   \<and> actions (events (unlock_brute_force wallet_env sandbox0 [''value'' \<mapsto> ''wordlist.txt''] started_world0))
       = opening_questions @ attempt ''a'' @ attempt ''Password123!''
   \<and> distinct (candidates wordlist_text)
   \<and> prefix (actions (events (unlock_brute_force wallet_env sandbox0 [''value'' \<mapsto> ''wordlist.txt''] started_world0)))
        (opening_questions @ concat (map attempt (candidates wordlist_text)))
   \<and> (stopped_early (outcome (unlock_brute_force wallet_env sandbox0 [''value'' \<mapsto> ''wordlist.txt''] started_world0)) (moves (events (unlock_brute_force wallet_env sandbox0 [''value'' \<mapsto> ''wordlist.txt''] started_world0)))
     \<or> (\<exists>gate ms.
          moves (events (unlock_brute_force wallet_env sandbox0 [''value'' \<mapsto> ''wordlist.txt''] started_world0))
            = Oracle gate # Said Info (words_loaded (length (candidates wordlist_text))) # ms
          \<and> (exhausted (candidates wordlist_text) (outcome (unlock_brute_force wallet_env sandbox0 [''value'' \<mapsto> ''wordlist.txt''] started_world0)) ms
             \<or> (\<exists>k. found (candidates wordlist_text) k (outcome (unlock_brute_force wallet_env sandbox0 [''value'' \<mapsto> ''wordlist.txt''] started_world0)) ms)
             \<or> (\<exists>k. interrupted (candidates wordlist_text) k (outcome (unlock_brute_force wallet_env sandbox0 [''value'' \<mapsto> ''wordlist.txt''] started_world0)) ms))))"
proof -
  have arg: "[''value'' \<mapsto> ''wordlist.txt''] ''value'' = Some ''wordlist.txt''"
    by simp
  have name: "''wordlist.txt'' \<noteq> []"
    by simp
  have contents: "env_file wallet_env ''wordlist.txt'' = Contents wordlist_text"
    by (simp add: wallet_env_def)
  have nonempty: "wordlist_text \<noteq> []"
    by (simp add: wordlist_text_def)
  have started: "self_context started_world0"
    by (simp add: started_world0_def)
  have cands: "candidates wordlist_text = [''a'', ''Password123!'', ''b'']"
    by code_simp
  have run: "moves (events (unlock_brute_force wallet_env sandbox0 [''value'' \<mapsto> ''wordlist.txt''] started_world0))
       = [Oracle False, Said Info ''Number of words loaded: 3'',
          Tried ''a'', Oracle True, Tried ''Password123!'', Oracle False,
          Said Alert ''Unlocked: Password123!'']"
    by code_simp
  have acts: "actions (events (unlock_brute_force wallet_env sandbox0 [''value'' \<mapsto> ''wordlist.txt''] started_world0))
       = opening_questions @ attempt ''a'' @ attempt ''Password123!''"
    by code_simp
  from unlock_brute_force_probe[of "[''value'' \<mapsto> ''wordlist.txt'']" "''wordlist.txt''"
      wallet_env wordlist_text sandbox0 started_world0, OF arg name contents nonempty]
  show ?thesis using arg contents nonempty started cands run acts by blast
qed

text \<open>
  Claim C1, as stated, has the probe attempt each candidate with \<open>unlockWithPassword\<close>,
  which is \<open>__unlock\<close>: fill once, submit, then close the popover if there is one. The
  loop calls \<open>__fill_password_submit\<close> instead. On the wallet whose unlocking opens a
  popover, the probe finds the password, never asks about the popover and leaves it open;
  \<open>__unlock\<close> with the same password asks about it and closes it.
\<close>

theorem unlock_brute_force_leaves_popover:
  "alerts (events (unlock_brute_force wallet_env sandbox0 [''value'' \<mapsto> ''wordlist.txt''] started_world0)) = [''Unlocked: Password123!'']
   \<and> actions (events (unlock_brute_force wallet_env sandbox0 [''value'' \<mapsto> ''wordlist.txt''] started_world0)) = opening_questions @ attempt ''a'' @ attempt ''Password123!''
   \<and> Asked popover_close \<notin> set (actions (events (unlock_brute_force wallet_env sandbox0 [''value'' \<mapsto> ''wordlist.txt''] started_world0)))
   \<and> Clicked popover_close \<notin> set (actions (events (unlock_brute_force wallet_env sandbox0 [''value'' \<mapsto> ''wordlist.txt''] started_world0)))
   \<and> w_popover (browser (after (unlock_brute_force wallet_env sandbox0 [''value'' \<mapsto> ''wordlist.txt''] started_world0)))
   \<and> actions (events (unlock_wallet wallet_env sandbox0 0 ''Password123!'' locked_world0))
       = [Asked (Locator ''button'' ''unlock''),
          Filled (Locator css_password []) ''Password123!'',
          Clicked (Locator ''button'' ''unlock''),
          Asked popover_close, Clicked popover_close]
   \<and> \<not> w_popover
         (browser (after (unlock_wallet wallet_env sandbox0 0 ''Password123!'' locked_world0)))"
proof -
  have "alerts (events (unlock_brute_force wallet_env sandbox0 [''value'' \<mapsto> ''wordlist.txt''] started_world0)) = [''Unlocked: Password123!'']"
    by code_simp
  moreover have "actions (events (unlock_brute_force wallet_env sandbox0 [''value'' \<mapsto> ''wordlist.txt''] started_world0)) = opening_questions @ attempt ''a'' @ attempt ''Password123!''"
    by code_simp
  moreover have "Asked popover_close \<notin> set (actions (events (unlock_brute_force wallet_env sandbox0 [''value'' \<mapsto> ''wordlist.txt''] started_world0)))"
    by code_simp
  moreover have "Clicked popover_close \<notin> set (actions (events (unlock_brute_force wallet_env sandbox0 [''value'' \<mapsto> ''wordlist.txt''] started_world0)))"
    by code_simp
  moreover have "w_popover (browser (after (unlock_brute_force wallet_env sandbox0 [''value'' \<mapsto> ''wordlist.txt''] started_world0)))"
    by code_simp
  moreover have
    "actions (events (unlock_wallet wallet_env sandbox0 0 ''Password123!'' locked_world0))
       = [Asked (Locator ''button'' ''unlock''),
          Filled (Locator css_password []) ''Password123!'',
          Clicked (Locator ''button'' ''unlock''),
          Asked popover_close, Clicked popover_close]"
    by code_simp
  moreover have "\<not> w_popover
         (browser (after (unlock_wallet wallet_env sandbox0 0 ''Password123!'' locked_world0)))"
    by code_simp
  ultimately show ?thesis by simp
qed

lemma still_locked_Cons: "still_locked (p # ps) = Tried p # Oracle True # still_locked ps"
  by (simp add: still_locked_def)

lemma still_locked_Nil: "still_locked [] = []"
  by (simp add: still_locked_def)

lemma answers_still_locked:
  "concat (map answer_of (still_locked ps @ ms)) = replicate (length ps) True @ concat (map answer_of ms)"
  by (induction ps) (simp_all add: still_locked_Cons still_locked_Nil)

lemma tried_still_locked:
  "concat (map tried_of (still_locked ps @ ms)) = ps @ concat (map tried_of ms)"
  by (induction ps) (simp_all add: still_locked_Cons still_locked_Nil)


lemma unique_comprehension_append:
  "unique_comprehension seen (xs @ ys)
     = unique_comprehension seen xs @ unique_comprehension (seen \<union> set xs) ys"
  by (induction xs arbitrary: seen) (auto simp: insert_absorb)

lemma unique_take_prefix: "prefix (unique (take n xs) False) (unique xs False)"
proof -
  have "unique (take n xs @ drop n xs) False
      = unique (take n xs) False @ unique_comprehension (set (take n xs)) (drop n xs)"
    by (simp only: unique_unsorted unique_comprehension_append) simp
  then show ?thesis
    by (simp add: prefix_def)
qed

lemma set_stripped_lines: "set (stripped_lines ls) = strip ` set ls - {[]}"
  by (induction ls) (auto simp: Let_def)

lemma tried_still_locked_only: "concat (map tried_of (still_locked ps)) = ps"
  using tried_still_locked[of ps "[]"] by simp

lemma tried_shapes:
  "stopped_early r ms \<Longrightarrow> concat (map tried_of ms) = []"
  "exhausted cs r ms \<Longrightarrow> concat (map tried_of ms) = cs"
  "found cs k r ms \<Longrightarrow> concat (map tried_of ms) = take (Suc k) cs"
  "interrupted cs k r ms \<Longrightarrow> concat (map tried_of ms) = take (Suc k) cs"
  by (auto simp: stopped_early_def exhausted_def found_def interrupted_def
      tried_still_locked tried_still_locked_only take_Suc_conv_app_nth)

lemma unlock_brute_force_tried:
  assumes "kw ''value'' = Some wordlist" and "wordlist \<noteq> []"
    and "env_file env wordlist = Contents text" and "text \<noteq> []"
  shows "prefix (tried (events (unlock_brute_force env sb kw w))) (candidates text)"
proof -
  obtain r w' es where run: "unlock_brute_force env sb kw w = (r, w', es)"
    and es: "events (unlock_brute_force env sb kw w) = es"
    by (rule outcome_events)
  from unlock_brute_force_moves[OF assms run]
  have "\<exists>k. concat (map tried_of (moves es)) = take k (candidates text)"
  proof (elim disjE exE conjE)
    assume "stopped_early r (moves es)"
    then have "concat (map tried_of (moves es)) = take 0 (candidates text)"
      by (simp add: tried_shapes)
    then show ?thesis ..
  next
    fix gate ms
    assume "moves es = Oracle gate # Said Info (words_loaded (length (candidates text))) # ms"
      and "exhausted (candidates text) r ms"
    then have "concat (map tried_of (moves es)) = take (length (candidates text)) (candidates text)"
      by (simp add: tried_shapes)
    then show ?thesis ..
  next
    fix gate ms k
    assume "moves es = Oracle gate # Said Info (words_loaded (length (candidates text))) # ms"
      and "found (candidates text) k r ms"
    then have "concat (map tried_of (moves es)) = take (Suc k) (candidates text)"
      by (simp add: tried_shapes)
    then show ?thesis ..
  next
    fix gate ms k
    assume "moves es = Oracle gate # Said Info (words_loaded (length (candidates text))) # ms"
      and "interrupted (candidates text) k r ms"
    then have "concat (map tried_of (moves es)) = take (Suc k) (candidates text)"
      by (simp add: tried_shapes)
    then show ?thesis ..
  qed
  then show ?thesis
    unfolding es tried_def by (auto simp: take_is_prefix)
qed

text \<open>
  Claim C9. For a wordlist file that is not empty, every password the brute-force probe
  tries is a non-empty string and is a line of the file with the white space at its ends
  removed, so a blank line gives no try. No password is tried twice, and the passwords
  tried are an initial part of the candidate list, in which an entry stands where its
  first occurrence in the file puts it: the candidates of the first \<open>n\<close> non-blank lines
  are an initial part of the candidates of the whole file, for every \<open>n\<close>.
\<close>

theorem unlock_brute_force_candidates:
  assumes "kw ''value'' = Some wordlist" and "wordlist \<noteq> []"
    and "env_file env wordlist = Contents text" and "text \<noteq> []"
  shows "(\<forall>p \<in> set (tried (events (unlock_brute_force env sb kw w))).
            p \<noteq> [] \<and> (\<exists>line \<in> set (stream_lines False [] text). p = strip line))
       \<and> distinct (tried (events (unlock_brute_force env sb kw w)))
       \<and> prefix (tried (events (unlock_brute_force env sb kw w))) (candidates text)
       \<and> (\<forall>n. prefix (unique (take n (nonblank_lines text)) False) (candidates text))"
proof -
  let ?tried = "tried (events (unlock_brute_force env sb kw w))"
  have tried: "prefix ?tried (candidates text)"
    using assms by (rule unlock_brute_force_tried)
  then have "set ?tried \<subseteq> set (candidates text)"
    by (rule set_mono_prefix)
  also have "\<dots> = strip ` set (stream_lines False [] text) - {[]}"
    by (simp add: candidates_def nonblank_lines_def set_unique set_stripped_lines)
  finally have lines: "\<forall>p \<in> set ?tried.
      p \<noteq> [] \<and> (\<exists>line \<in> set (stream_lines False [] text). p = strip line)"
    by auto
  have "distinct (candidates text)"
    by (simp add: candidates_def distinct_unique)
  with tried have once: "distinct ?tried"
    by (auto simp: prefix_def)
  have first: "\<forall>n. prefix (unique (take n (nonblank_lines text)) False) (candidates text)"
    by (simp add: candidates_def unique_take_prefix)
  from lines once tried first show ?thesis
    by (intro conjI)
qed

theorem unlock_brute_force_candidates_witness:
  "[''value'' \<mapsto> ''spaced.txt''] ''value'' = Some ''spaced.txt''
   \<and> env_file wallet_env ''spaced.txt'' = Contents spaced_text
   \<and> spaced_text \<noteq> []
   \<and> length (stream_lines False [] spaced_text) = 6
   \<and> tried (events (unlock_brute_force wallet_env sandbox0 [''value'' \<mapsto> ''spaced.txt''] started_world0))
       = [''a'', ''b'', ''c'']
   \<and> ''a'' \<noteq> [] \<and> (\<exists>line \<in> set (stream_lines False [] spaced_text). ''a'' = strip line)
   \<and> distinct (tried (events (unlock_brute_force wallet_env sandbox0
         [''value'' \<mapsto> ''spaced.txt''] started_world0)))
   \<and> prefix (tried (events (unlock_brute_force wallet_env sandbox0
         [''value'' \<mapsto> ''spaced.txt''] started_world0))) (candidates spaced_text)
   \<and> (\<forall>n. prefix (unique (take n (nonblank_lines spaced_text)) False) (candidates spaced_text))"
proof -
  have arg: "[''value'' \<mapsto> ''spaced.txt''] ''value'' = Some ''spaced.txt''"
    by simp
  have name: "''spaced.txt'' \<noteq> []"
    by simp
  have contents: "env_file wallet_env ''spaced.txt'' = Contents spaced_text"
    by (simp add: wallet_env_def)
  have nonempty: "spaced_text \<noteq> []"
    by (simp add: spaced_text_def)
  have six: "length (stream_lines False [] spaced_text) = 6"
    by code_simp
  have run: "tried (events (unlock_brute_force wallet_env sandbox0
      [''value'' \<mapsto> ''spaced.txt''] started_world0)) = [''a'', ''b'', ''c'']"
    by code_simp
  from unlock_brute_force_candidates[of "[''value'' \<mapsto> ''spaced.txt'']" "''spaced.txt''"
      wallet_env spaced_text sandbox0 started_world0, OF arg name contents nonempty]
  show ?thesis using arg contents nonempty six run by auto
qed

text \<open>
  Claim C7, as amended. With the wordlist \<open>["a", "Password123!", "b"]\<close>, when the wallet is
  still locked after the first try and no longer locked after the second, the loop of the
  probe tries \<open>a\<close> and \<open>Password123!\<close> and nothing else, reports \<open>Password123!\<close> and
  returns: two tries, of which one, the first, failed.
\<close>

theorem brute_force_scenario:
  assumes "oracle_answers (events (unlock_brute_force_loop env sb pg
             [''a'', ''Password123!'', ''b''] w)) = [True, False]"
  shows "moves (events (unlock_brute_force_loop env sb pg [''a'', ''Password123!'', ''b''] w))
           = [Tried ''a'', Oracle True, Tried ''Password123!'', Oracle False,
              Said Alert ''Unlocked: Password123!'']
       \<and> outcome (unlock_brute_force_loop env sb pg [''a'', ''Password123!'', ''b''] w) = Inr ()
       \<and> tried (events (unlock_brute_force_loop env sb pg [''a'', ''Password123!'', ''b''] w))
           = [''a'', ''Password123!'']
       \<and> failed_attempts (events (unlock_brute_force_loop env sb pg
             [''a'', ''Password123!'', ''b''] w)) = 1"
proof -
  let ?ws = "[''a'', ''Password123!'', ''b'']"
  obtain r w' es where run: "unlock_brute_force_loop env sb pg ?ws w = (r, w', es)"
    and r: "outcome (unlock_brute_force_loop env sb pg ?ws w) = r"
    and es: "events (unlock_brute_force_loop env sb pg ?ws w) = es"
    by (rule outcome_events)
  from assms have answers: "concat (map answer_of (moves es)) = [True, False]"
    unfolding oracle_answers_def es .
  have "[] \<notin> set ?ws" by simp
  from loop_moves[OF run this]
  have "found ?ws 1 r (moves es)"
  proof (elim disjE exE)
    assume "exhausted ?ws r (moves es)"
    with answers show ?thesis
      by (simp add: exhausted_def still_locked_def)
  next
    fix k assume k: "found ?ws k r (moves es)"
    then have "k < 3" by (simp add: found_def)
    then consider "k = 0" | "k = 1" | "k = 2" by linarith
    then show ?thesis
      using k answers by cases (simp_all add: found_def still_locked_def)
  next
    fix k assume k: "interrupted ?ws k r (moves es)"
    then have "k < 3" by (simp add: interrupted_def)
    then consider "k = 0" | "k = 1" | "k = 2" by linarith
    then show ?thesis
      using k answers by cases (simp_all add: interrupted_def still_locked_def numeral_2_eq_2)
  qed
  then show ?thesis
    unfolding r es
    by (simp add: found_def still_locked_def tried_def failed_attempts_def)
qed

theorem brute_force_scenario_witness:
  "oracle_answers (events (unlock_brute_force_loop wallet_env sandbox0 0
      [''a'', ''Password123!'', ''b''] locked_world0)) = [True, False]
   \<and> moves (events (unlock_brute_force_loop wallet_env sandbox0 0
      [''a'', ''Password123!'', ''b''] locked_world0))
       = [Tried ''a'', Oracle True, Tried ''Password123!'', Oracle False,
          Said Alert ''Unlocked: Password123!'']
   \<and> outcome (unlock_brute_force_loop wallet_env sandbox0 0
      [''a'', ''Password123!'', ''b''] locked_world0) = Inr ()
   \<and> tried (events (unlock_brute_force_loop wallet_env sandbox0 0
      [''a'', ''Password123!'', ''b''] locked_world0)) = [''a'', ''Password123!'']
   \<and> failed_attempts (events (unlock_brute_force_loop wallet_env sandbox0 0
      [''a'', ''Password123!'', ''b''] locked_world0)) = 1"
proof -
  have answers: "oracle_answers (events (unlock_brute_force_loop wallet_env sandbox0 0
      [''a'', ''Password123!'', ''b''] locked_world0)) = [True, False]"
    by code_simp
  from brute_force_scenario[OF answers] answers show ?thesis
    by (intro conjI) simp_all
qed

text \<open>
  The claim as it was stated has the credential reported after two failed tries. Against
  the wallet whose password is \<open>Password123!\<close> the probe reports it after one failed try.
\<close>

theorem brute_force_scenario_one_failed_attempt:
  "alerts (events (unlock_brute_force_loop wallet_env sandbox0 0
      [''a'', ''Password123!'', ''b''] locked_world0)) = [''Unlocked: Password123!'']
   \<and> oracle_answers (events (unlock_brute_force_loop wallet_env sandbox0 0
      [''a'', ''Password123!'', ''b''] locked_world0)) = [True, False]
   \<and> failed_attempts (events (unlock_brute_force_loop wallet_env sandbox0 0
      [''a'', ''Password123!'', ''b''] locked_world0)) \<noteq> 2"
  by code_simp

subsection \<open>The access-control scan\<close>

lemma visits_simps [simp]:
  "visits [] = []" "visits (e # es) = visit_of e @ visits es"
  "visits (es @ fs) = visits es @ visits fs"
  by (simp_all add: visits_def)

lemma texts_simps [simp]:
  "texts [] = []" "texts (e # es) = text_of e @ texts es"
  "texts (es @ fs) = texts es @ texts fs"
  by (simp_all add: texts_def)

lemma alerts_simps [simp]:
  "alerts [] = []" "alerts (e # es) = alert_of e @ alerts es"
  "alerts (es @ fs) = alerts es @ alerts fs"
  by (simp_all add: alerts_def)

lemma infos_simps [simp]:
  "infos [] = []" "infos (e # es) = info_of e @ infos es"
  "infos (es @ fs) = infos es @ infos fs"
  by (simp_all add: infos_def)

lemma was_seen_simps [simp]:
  "was_seen a [] = False" "was_seen a (e # es) = (seen_of a e \<or> was_seen a es)"
  "was_seen a (es @ fs) = (was_seen a es \<or> was_seen a fs)"
  by (simp_all add: was_seen_def)

lemma wait_scan:
  assumes "wait env sb pg n w = (r, w', es)"
  shows "url_base w' = url_base w \<and> visits es = [] \<and> texts es = [] \<and> \<not> was_seen a es
    \<and> alerts es = [] \<and> infos es = []"
  using assms
  by (auto simp: wait_def elim!: bnd_cases call_cases split: if_splits)

lemma goto_browser_extension_scan:
  assumes "goto_browser_extension env sb pg path w = (r, w', es)"
  shows "url_base w' = url_base w \<and> visits es = [extension_url (url_base w) path]
    \<and> texts es = [] \<and> \<not> was_seen a es \<and> alerts es = [] \<and> infos es = []"
proof -
  from assms have "bnd (perform env (Goto pg (extension_url (url_base w) path)))
     (\<lambda>response. bnd (wait env sb pg (- 1)) (\<lambda>u. ret response)) w = (r, w', es)"
    by (simp add: goto_browser_extension_def goto_def)
  then show ?thesis
  proof (cases rule: bnd_cases)
    case (raised e)
    then show ?thesis by (auto elim!: call_cases)
  next
    case (returned x w1 es1 es2)
    from returned(2) obtain r2 where "wait env sb pg (- 1) w1 = (r2, w', es2)"
      by (auto elim!: bnd_cases call_cases)
    from wait_scan[OF this, of a] returned(1,3) show ?thesis
      by (auto elim!: call_cases)
  qed
qed


lemma bnd_returns:
  assumes "bnd m f w = (Inr y, w', es)"
  obtains x w1 es1 es2 where "m w = (Inr x, w1, es1)" and "f x w1 = (Inr y, w', es2)"
    and "es = es1 @ es2"
  using assms by (auto elim: bnd_cases)

lemma page_step_scan:
  assumes "(if success then bnd (new_page env) (\<lambda>pg. ret (Some pg)) else ret tmp) w
    = (r, w', es)"
  shows "url_base w' = url_base w \<and> visits es = [] \<and> texts es = [] \<and> \<not> was_seen a es
    \<and> alerts es = [] \<and> infos es = []"
  using assms by (auto elim!: bnd_cases call_cases split: if_splits)

lemma content_step_scan:
  assumes "is_visible env t ''div[id=app-content]'' [] w = (r, w', es)"
  shows "url_base w' = url_base w \<and> visits es = [] \<and> texts es = []
    \<and> \<not> was_seen (affordance state) es \<and> alerts es = [] \<and> infos es = []"
  using assms by (auto simp: is_visible_def locate_def affordance_def elim!: call_cases)

lemma size_step_scan:
  assumes "(if v then get_size env t ''div[id=app-content]'' [] else ret 0) w = (Inr sz, w', es)"
  shows "url_base w' = url_base w \<and> visits es = [] \<and> measured_size es = sz
    \<and> (texts es = [] \<longrightarrow> sz = 0) \<and> length (texts es) \<le> 1
    \<and> \<not> was_seen a es \<and> alerts es = [] \<and> infos es = []"
  using assms
  by (auto simp: get_size_def get_text_def locate_def measured_size_def
      elim!: bnd_cases call_cases split: if_splits)

lemma decision_step_scan:
  assumes "(if sz < 1 then ret True
            else bnd (if state = ''locked'' then locked env t else ret False) (\<lambda>gate.
                 if gate then ret True
                 else if state = ''unlocked''
                   then is_visible env t ''div[class=wallet-overview__balance]'' []
                   else ret False)) w = (Inr skip, w', es)"
    and "state = ''locked'' \<or> state = ''unlocked''"
  shows "url_base w' = url_base w \<and> visits es = [] \<and> texts es = [] \<and> alerts es = []
    \<and> infos es = [] \<and> (skip \<longleftrightarrow> sz < 1 \<or> was_seen (affordance state) es)"
  using assms
  by (auto simp: locked_def is_visible_def locate_def affordance_def
      elim!: bnd_cases call_cases split: if_splits)


lemma access_control_round_scan:
  assumes run: "access_control_round env sb state success tmp path w
      = (Inr (flagged, tmp'), w', es)"
    and valid: "state = ''locked'' \<or> state = ''unlocked''"
  shows "url_base w' = url_base w \<and> visits es = [extension_url (url_base w) path]
    \<and> (flagged \<longleftrightarrow> 1 \<le> measured_size es \<and> \<not> affordance_seen state es)
    \<and> alerts es = (if flagged then [leak_line (measured_size es) (url_base w) path] else [])
    \<and> infos es = [] \<and> tmp' \<noteq> None"
proof -
  let ?a = "affordance state"
  from run[unfolded access_control_round_def] obtain tmp1 w1 es1 rest1 where
    page: "(if success then bnd (new_page env) (\<lambda>pg. ret (Some pg)) else ret tmp) w
      = (Inr tmp1, w1, es1)"
    and rest1: "(case tmp1 of
       None \<Rightarrow> raise (Uncaught ''UnboundLocalError'')
     | Some t \<Rightarrow>
         bnd (goto_browser_extension env sb t path) (\<lambda>u.
         bnd (is_visible env t ''div[id=app-content]'' []) (\<lambda>v.
         bnd (if v then get_size env t ''div[id=app-content]'' [] else ret 0) (\<lambda>sz.
         bnd (if sz < 1 then ret True
              else
                bnd (if state = ''locked'' then locked env t else ret False) (\<lambda>gate.
                if gate then ret True
                else if state = ''unlocked''
                  then is_visible env t ''div[class=wallet-overview__balance]'' []
                  else ret False)) (\<lambda>skip.
         if skip then ret (False, Some t)
         else
           bnd get_world (\<lambda>w.
           bnd (print_alert (leak_line sz (url_base w) path)) (\<lambda>u.
           ret (True, Some t)))))))) w1 = (Inr (flagged, tmp'), w', rest1)"
    and es: "es = es1 @ rest1"
    by (rule bnd_returns)
  note f1 = page_step_scan[OF page, of ?a]
  from rest1 obtain t where t: "tmp1 = Some t"
    by (cases tmp1) (auto simp: raise_def)
  from rest1[unfolded t option.case] obtain u w2 es2 rest2 where
    home: "goto_browser_extension env sb t path w1 = (Inr u, w2, es2)"
    and rest2: "bnd (is_visible env t ''div[id=app-content]'' []) (\<lambda>v.
         bnd (if v then get_size env t ''div[id=app-content]'' [] else ret 0) (\<lambda>sz.
         bnd (if sz < 1 then ret True
              else
                bnd (if state = ''locked'' then locked env t else ret False) (\<lambda>gate.
                if gate then ret True
                else if state = ''unlocked''
                  then is_visible env t ''div[class=wallet-overview__balance]'' []
                  else ret False)) (\<lambda>skip.
         if skip then ret (False, Some t)
         else
           bnd get_world (\<lambda>w.
           bnd (print_alert (leak_line sz (url_base w) path)) (\<lambda>u.
           ret (True, Some t)))))) w2 = (Inr (flagged, tmp'), w', rest2)"
    and r1: "rest1 = es2 @ rest2"
    by (rule bnd_returns)
  note f2 = goto_browser_extension_scan[OF home, of ?a]
  from rest2 obtain v w3 es3 rest3 where
    content: "is_visible env t ''div[id=app-content]'' [] w2 = (Inr v, w3, es3)"
    and rest3: "bnd (if v then get_size env t ''div[id=app-content]'' [] else ret 0) (\<lambda>sz.
         bnd (if sz < 1 then ret True
              else
                bnd (if state = ''locked'' then locked env t else ret False) (\<lambda>gate.
                if gate then ret True
                else if state = ''unlocked''
                  then is_visible env t ''div[class=wallet-overview__balance]'' []
                  else ret False)) (\<lambda>skip.
         if skip then ret (False, Some t)
         else
           bnd get_world (\<lambda>w.
           bnd (print_alert (leak_line sz (url_base w) path)) (\<lambda>u.
           ret (True, Some t))))) w3 = (Inr (flagged, tmp'), w', rest3)"
    and r2: "rest2 = es3 @ rest3"
    by (rule bnd_returns)
  note f3 = content_step_scan[OF content, of state]
  from rest3 obtain sz w4 es4 rest4 where
    size: "(if v then get_size env t ''div[id=app-content]'' [] else ret 0) w3
      = (Inr sz, w4, es4)"
    and rest4: "bnd (if sz < 1 then ret True
              else
                bnd (if state = ''locked'' then locked env t else ret False) (\<lambda>gate.
                if gate then ret True
                else if state = ''unlocked''
                  then is_visible env t ''div[class=wallet-overview__balance]'' []
                  else ret False)) (\<lambda>skip.
         if skip then ret (False, Some t)
         else
           bnd get_world (\<lambda>w.
           bnd (print_alert (leak_line sz (url_base w) path)) (\<lambda>u.
           ret (True, Some t)))) w4 = (Inr (flagged, tmp'), w', rest4)"
    and r3: "rest3 = es4 @ rest4"
    by (rule bnd_returns)
  note f4 = size_step_scan[OF size, of ?a]
  from rest4 obtain skip w5 es5 rest5 where
    decision: "(if sz < 1 then ret True
              else
                bnd (if state = ''locked'' then locked env t else ret False) (\<lambda>gate.
                if gate then ret True
                else if state = ''unlocked''
                  then is_visible env t ''div[class=wallet-overview__balance]'' []
                  else ret False)) w4 = (Inr skip, w5, es5)"
    and rest5: "(if skip then ret (False, Some t)
         else
           bnd get_world (\<lambda>w.
           bnd (print_alert (leak_line sz (url_base w) path)) (\<lambda>u.
           ret (True, Some t)))) w5 = (Inr (flagged, tmp'), w', rest5)"
    and r4: "rest4 = es5 @ rest5"
    by (rule bnd_returns)
  note f5 = decision_step_scan[OF decision valid]
  have base: "url_base w5 = url_base w"
    using f1 f2 f3 f4 f5 by simp
  from rest5 base have last:
    "flagged = (\<not> skip) \<and> tmp' = Some t \<and> w' = w5
     \<and> rest5 = (if skip then [] else [Console Alert (leak_line sz (url_base w) path)])"
    by (auto simp: print_alert_def elim!: bnd_cases call_cases split: if_splits)
  have all: "es = es1 @ es2 @ es3 @ es4 @ es5 @ rest5"
    by (simp add: es r1 r2 r3 r4)
  have measured: "measured_size es = sz"
    using f1 f2 f3 f4 f5 last unfolding all measured_size_def
    by (auto split: list.splits)
  have saw: "affordance_seen state es = was_seen ?a es5"
    using f1 f2 f3 f4 last unfolding all affordance_seen_def by auto
  from f1 f2 f3 f4 f5 last base measured saw show ?thesis
    unfolding all by (auto simp: not_less)
qed


lemma access_control_loop_scan:
  assumes "access_control_loop env sb state success tmp paths w = (Inr x, w', es)"
    and "state = ''locked'' \<or> state = ''unlocked''"
  shows "url_base w' = url_base w \<and> visits es = map (extension_url (url_base w)) paths
    \<and> infos es = []"
  using assms
proof (induction paths arbitrary: success tmp w es)
  case Nil
  then show ?case by (auto elim!: call_cases)
next
  case (Cons path paths)
  from Cons.prems(1) obtain y w1 es1 es2 where
    round: "access_control_round env sb state success tmp path w = (Inr y, w1, es1)"
    and rest: "(case y of (success, tmp) \<Rightarrow>
        access_control_loop env sb state success tmp paths) w1 = (Inr x, w', es2)"
    and es: "es = es1 @ es2"
    unfolding access_control_loop.simps by (rule bnd_returns)
  obtain flagged tmp' where y: "y = (flagged, tmp')"
    by (cases y)
  from access_control_round_scan[OF round[unfolded y] Cons.prems(2)]
  have one: "url_base w1 = url_base w" "visits es1 = [extension_url (url_base w) path]"
    "infos es1 = []"
    by simp_all
  from rest y have "access_control_loop env sb state flagged tmp' paths w1 = (Inr x, w', es2)"
    by simp
  from Cons.IH[OF this Cons.prems(2)] one es show ?case
    by simp
qed

lemma catalog_explicit:
  "target_catalog pages fragments = ''/home.html'' # map (\<lambda>fr. ''/home.html'' @ fr) fragments"
  by code_simp

lemma catalog_urls:
  "map (extension_url base) (target_catalog pages fragments)
     = map (\<lambda>path. base @ path) (target_catalog pages fragments)"
  unfolding catalog_explicit
  by (simp add: fragments_def extension_url_def lstrip_slash_def
      lstrip_chars_def home_page_def Let_def)

lemma catalog_length: "length (target_catalog pages fragments) = 31"
  unfolding catalog_explicit by (simp add: fragments_def)

lemma catalog_urls_distinct:
  "distinct (map (extension_url base) (target_catalog pages fragments))"
  unfolding catalog_urls
  by (auto simp: distinct_map inj_on_def target_catalog_def distinct_unique)

lemma wait_frame:
  "wait env sb pg n w = (r, w', es) \<Longrightarrow> url_base w' = url_base w \<and> infos es = []"
  using wait_scan[of env sb pg n w r w' es "Locator [] []"] by simp

lemma goto_browser_extension_frame:
  "goto_browser_extension env sb pg path w = (r, w', es)
   \<Longrightarrow> url_base w' = url_base w \<and> infos es = []"
  using goto_browser_extension_scan[of env sb pg path w r w' es "Locator [] []"] by simp

lemma is_created_scan:
  assumes "is_created env pg w = (r, w', es)"
  shows "url_base w' = url_base w \<and> visits es = [] \<and> infos es = []
    \<and> (r = Inr False \<longrightarrow> Console Error ''Wallet is not created'' \<in> set es)"
  using assms
  by (auto simp: is_created_def created_def is_visible_def print_error_def
      elim!: bnd_cases call_cases split: if_splits)

lemma submit_scan:
  assumes "submit env sb pg c t w = (r, w', es)"
  shows "url_base w' = url_base w \<and> infos es = []"
  using assms
  by (auto simp: submit_def Let_def elim!: bnd_cases call_cases dest!: wait_frame)

lemma fill_password_submit_scan:
  assumes "fill_password_submit env sb pg p c t w = (r, w', es)"
  shows "url_base w' = url_base w \<and> infos es = []"
  using assms
  by (auto simp: fill_password_submit_def fill_def Let_def elim!: bnd_cases call_cases
      dest!: submit_scan)

lemma lock_wallet_scan:
  assumes "lock_wallet env sb pg w = (r, w', es)"
  shows "url_base w' = url_base w \<and> infos es = []"
  using assms
  by (auto simp: lock_wallet_def locked_def is_visible_def elim!: bnd_cases call_cases
      dest!: goto_browser_extension_frame split: if_splits)

lemma unlock_wallet_scan:
  assumes "unlock_wallet env sb pg p w = (r, w', es)"
  shows "url_base w' = url_base w \<and> infos es = []"
  using assms
  by (auto simp: unlock_wallet_def locked_def is_visible_def elim!: bnd_cases call_cases
      dest!: fill_password_submit_scan submit_scan split: if_splits)

lemma access_control_scan_visits:
  assumes "access_control_scan env sb state w = (Inr x, w', es)"
    and "state = ''locked'' \<or> state = ''unlocked''"
  shows "x = None \<and> (\<exists>scan. es = [state_line state, urls_line 31] @ scan
    \<and> infos scan = []
    \<and> visits scan = map (extension_url (url_base w)) (target_catalog pages fragments))"
proof -
  let ?paths = "target_catalog pages fragments"
  let ?closing = "\<lambda>y. case y of (success, tmp) \<Rightarrow>
          bnd (if \<not> success then
                 (case tmp of
                    None \<Rightarrow> raise (Uncaught ''UnboundLocalError'')
                  | Some t \<Rightarrow> close env t True)
               else ret ()) (\<lambda>u. ret None)"
  from assms(1)
  have "bnd (console Info (''State: '' @ state)) (\<lambda>u.
        bnd (console Info (''Number of URLs: '' @ str_nat 31)) (\<lambda>u.
        bnd (access_control_loop env sb state True None ?paths) ?closing)) w = (Inr x, w', es)"
    by (simp add: access_control_scan_def Let_def print_info_def catalog_length)
  then obtain u1 w0 e0 r0 where
    line1: "console Info (''State: '' @ state) w = (Inr u1, w0, e0)"
    and step1: "bnd (console Info (''Number of URLs: '' @ str_nat 31)) (\<lambda>u.
        bnd (access_control_loop env sb state True None ?paths) ?closing) w0 = (Inr x, w', r0)"
    and es1: "es = e0 @ r0"
    by (rule bnd_returns)
  from step1 obtain u2 w00 e00 es0 where
    line2: "console Info (''Number of URLs: '' @ str_nat 31) w0 = (Inr u2, w00, e00)"
    and run0: "bnd (access_control_loop env sb state True None ?paths) ?closing w00
      = (Inr x, w', es0)"
    and es2: "r0 = e00 @ es0"
    by (rule bnd_returns)
  from line1 line2 have same: "w0 = w" "w00 = w" "e0 = [state_line state]" "e00 = [urls_line 31]"
    by (auto simp: state_line_def urls_line_def elim!: console_cases)
  from run0 same have
    run: "bnd (access_control_loop env sb state True None ?paths) ?closing w = (Inr x, w', es0)"
    by simp
  from es1 es2 same have es: "es = [state_line state, urls_line 31] @ es0"
    by simp
  from run obtain y w1 es1 es2 where
    loop: "access_control_loop env sb state True None ?paths w = (Inr y, w1, es1)"
    and rest: "?closing y w1 = (Inr x, w', es2)"
    and es0: "es0 = es1 @ es2"
    by (rule bnd_returns)
  from rest have "x = None \<and> visits es2 = [] \<and> infos es2 = []"
    by (auto simp: close_def elim!: bnd_cases call_cases
        split: prod.splits if_splits option.splits)
  with access_control_loop_scan[OF loop assms(2)] es es0 show ?thesis
    by simp
qed


lemma access_control_flow:
  assumes run: "access_control env sb kw w = (Inr x, w', es)"
    and valid: "lower (get_extra_value kw) = ''locked'' \<or> lower (get_extra_value kw) = ''unlocked''"
  shows "x = None \<and>
    (Console Error ''Wallet is not created'' \<in> set es \<and> infos es = []
     \<or> (\<exists>pre scan. es = pre @ [state_line (lower (get_extra_value kw)), urls_line 31] @ scan
          \<and> infos pre = [] \<and> infos scan = []
          \<and> visits scan = map (extension_url (url_base w)) (target_catalog pages fragments)))"
proof -
  let ?state = "lower (get_extra_value kw)"
  let ?force = "\<lambda>pg. if ?state = ''locked'' then lock_wallet env sb pg
                     else unlock_wallet env sb pg []"
  from valid have "\<And>pg. (if ?state = ''locked'' then
          bnd (lock_wallet env sb pg) (\<lambda>u. access_control_scan env sb ?state)
        else if ?state = ''unlocked'' then
          bnd (unlock_wallet env sb pg []) (\<lambda>u. access_control_scan env sb ?state)
        else
          bnd (print_error state_required) (\<lambda>u. ret (Some 0)))
      = bnd (?force pg) (\<lambda>u. access_control_scan env sb ?state)"
    by auto
  with run have "bnd (new_page env) (\<lambda>pg.
     bnd (goto_browser_extension env sb pg []) (\<lambda>u.
     bnd (is_created env pg) (\<lambda>c.
     if c then bnd (?force pg) (\<lambda>u. access_control_scan env sb ?state)
     else ret None))) w = (Inr x, w', es)"
    by (simp add: access_control_def Let_def cong: if_cong)
  then obtain pg w1 es1 rest1 where
    page: "new_page env w = (Inr pg, w1, es1)"
    and rest1: "bnd (goto_browser_extension env sb pg []) (\<lambda>u.
     bnd (is_created env pg) (\<lambda>c.
     if c then bnd (?force pg) (\<lambda>u. access_control_scan env sb ?state)
     else ret None)) w1 = (Inr x, w', rest1)"
    and es: "es = es1 @ rest1"
    by (rule bnd_returns)
  from page have f1: "url_base w1 = url_base w" "infos es1 = []"
    by (auto elim!: call_cases)
  from rest1 obtain u w2 es2 rest2 where
    home: "goto_browser_extension env sb pg [] w1 = (Inr u, w2, es2)"
    and rest2: "bnd (is_created env pg) (\<lambda>c.
     if c then bnd (?force pg) (\<lambda>u. access_control_scan env sb ?state)
     else ret None) w2 = (Inr x, w', rest2)"
    and r1: "rest1 = es2 @ rest2"
    by (rule bnd_returns)
  from goto_browser_extension_frame[OF home] have f2: "url_base w2 = url_base w1" "infos es2 = []"
    by simp_all
  from rest2 obtain c w3 es3 rest3 where
    wallet: "is_created env pg w2 = (Inr c, w3, es3)"
    and rest3: "(if c then bnd (?force pg) (\<lambda>u. access_control_scan env sb ?state)
     else ret None) w3 = (Inr x, w', rest3)"
    and r2: "rest2 = es3 @ rest3"
    by (rule bnd_returns)
  from is_created_scan[OF wallet] have f3: "url_base w3 = url_base w2" "infos es3 = []"
    "c = False \<longrightarrow> Console Error ''Wallet is not created'' \<in> set es3"
    by simp_all
  show ?thesis
  proof (cases c)
    case False
    with rest3 have "x = None" and "rest3 = []"
      by (auto elim: ret_cases)
    with False f1 f2 f3 es r1 r2 show ?thesis
      by simp
  next
    case True
    with rest3 obtain u' w4 es4 rest4 where
      force: "?force pg w3 = (Inr u', w4, es4)"
      and scan: "access_control_scan env sb ?state w4 = (Inr x, w', rest4)"
      and r3: "rest3 = es4 @ rest4"
      by (auto elim: bnd_returns)
    from force have f4: "url_base w4 = url_base w3 \<and> infos es4 = []"
      by (auto dest: lock_wallet_scan unlock_wallet_scan split: if_splits)
    from access_control_scan_visits[OF scan valid] obtain sc where
      sc: "x = None" "rest4 = [state_line ?state, urls_line 31] @ sc" "infos sc = []"
      "visits sc = map (extension_url (url_base w4)) (target_catalog pages fragments)"
      by blast
    have whole: "es = (es1 @ es2 @ es3 @ es4) @ [state_line ?state, urls_line 31] @ sc"
      by (simp add: es r1 r2 r3 sc)
    have quiet: "infos (es1 @ es2 @ es3 @ es4) = []"
      using f1 f2 f3 f4 by simp
    have "url_base w4 = url_base w"
      using f1 f2 f3 f4 by simp
    with sc have all: "visits sc = map (extension_url (url_base w)) (target_catalog pages fragments)"
      by simp
    from whole quiet sc(3) all
    have "\<exists>pre scan. es = pre @ [state_line ?state, urls_line 31] @ scan
          \<and> infos pre = [] \<and> infos scan = []
          \<and> visits scan = map (extension_url (url_base w)) (target_catalog pages fragments)"
      by (intro exI[of _ "es1 @ es2 @ es3 @ es4"] exI[of _ sc] conjI)
    with sc(1) show ?thesis
      by (intro conjI disjI2)
  qed
qed

text \<open>
  Claim C4. With a required state that is \<open>locked\<close> or \<open>unlocked\<close> in some spelling of
  upper and lower case, a run of the scan either raises, or finds no wallet, or returns
  after these events: the opening of the home page and the forcing of the state, then the
  two lines of information, once each, then the scan proper, in which the addresses
  loaded are those of the 31 entries of the catalog, each once, in the order of the
  catalog, whatever was flagged on the way. The catalog has no duplicates, and no two
  of its entries have the same address.
\<close>

theorem access_control_scans_catalog:
  assumes "lower (get_extra_value kw) = ''locked'' \<or> lower (get_extra_value kw) = ''unlocked''"
  shows "length (target_catalog pages fragments) = 31
    \<and> distinct (map (extension_url (url_base w)) (target_catalog pages fragments))
    \<and> ((\<exists>e. outcome (access_control env sb kw w) = Inl e)
       \<or> outcome (access_control env sb kw w) = Inr None
          \<and> Console Error ''Wallet is not created'' \<in> set (events (access_control env sb kw w))
          \<and> infos (events (access_control env sb kw w)) = []
       \<or> outcome (access_control env sb kw w) = Inr None
          \<and> (\<exists>pre scan.
                events (access_control env sb kw w)
                  = pre @ [state_line (lower (get_extra_value kw)),
                           urls_line (length (target_catalog pages fragments))] @ scan
                \<and> infos pre = [] \<and> infos scan = []
                \<and> visits scan
                    = map (extension_url (url_base w)) (target_catalog pages fragments)))"
proof -
  obtain r w' es where run: "access_control env sb kw w = (r, w', es)"
    and r: "outcome (access_control env sb kw w) = r"
    and es: "events (access_control env sb kw w) = es"
    by (rule outcome_events)
  have len: "length (target_catalog pages fragments) = 31"
    by (rule catalog_length)
  have dist: "distinct (map (extension_url (url_base w)) (target_catalog pages fragments))"
    by (rule catalog_urls_distinct)
  have "(\<exists>e. r = Inl e)
       \<or> r = Inr None \<and> Console Error ''Wallet is not created'' \<in> set es \<and> infos es = []
       \<or> r = Inr None
          \<and> (\<exists>pre scan. es = pre @ [state_line (lower (get_extra_value kw)), urls_line 31] @ scan
                \<and> infos pre = [] \<and> infos scan = []
                \<and> visits scan
                    = map (extension_url (url_base w)) (target_catalog pages fragments))"
  proof (cases r)
    case (Inl e)
    then show ?thesis by simp
  next
    case (Inr x)
    from access_control_flow[OF run[unfolded Inr] assms]
    have "x = None" and "Console Error ''Wallet is not created'' \<in> set es \<and> infos es = []
     \<or> (\<exists>pre scan. es = pre @ [state_line (lower (get_extra_value kw)), urls_line 31] @ scan
          \<and> infos pre = [] \<and> infos scan = []
          \<and> visits scan = map (extension_url (url_base w)) (target_catalog pages fragments))"
      by simp_all
    with Inr show ?thesis
      by (elim disjE) simp_all
  qed
  then have "(\<exists>e. r = Inl e)
       \<or> r = Inr None \<and> Console Error ''Wallet is not created'' \<in> set es \<and> infos es = []
       \<or> r = Inr None
          \<and> (\<exists>pre scan. es = pre @ [state_line (lower (get_extra_value kw)),
                  urls_line (length (target_catalog pages fragments))] @ scan
                \<and> infos pre = [] \<and> infos scan = []
                \<and> visits scan
                    = map (extension_url (url_base w)) (target_catalog pages fragments))"
    unfolding len .
  with len dist show ?thesis
    unfolding r es by (intro conjI)
qed

text \<open>
  Claim C2. A round of the scan that returns has flagged its target exactly when the size
  it measured is at least 1 and the affordance of the required state was not seen: the
  unlock button for \<open>locked\<close>, the balance overview for \<open>unlocked\<close>. A target whose
  measured size is 0 is not flagged. The round prints its line of alert exactly when it
  flags the target.
\<close>

theorem access_control_round_flags:
  assumes "state = ''locked'' \<or> state = ''unlocked''"
    and "outcome (access_control_round env sb state success tmp path w) = Inr (flagged, tmp')"
  shows "(flagged \<longleftrightarrow>
            1 \<le> measured_size (events (access_control_round env sb state success tmp path w))
            \<and> \<not> affordance_seen state
                  (events (access_control_round env sb state success tmp path w)))
    \<and> (measured_size (events (access_control_round env sb state success tmp path w)) = 0
         \<longrightarrow> \<not> flagged)
    \<and> alerts (events (access_control_round env sb state success tmp path w))
        = (if flagged
           then [leak_line
                   (measured_size (events (access_control_round env sb state success tmp path w)))
                   (url_base w) path]
           else [])
    \<and> affordance ''locked'' = Locator ''button'' ''unlock''
    \<and> affordance ''unlocked'' = Locator ''div[class=wallet-overview__balance]'' []"
proof -
  obtain r w' es where run: "access_control_round env sb state success tmp path w = (r, w', es)"
    and r: "outcome (access_control_round env sb state success tmp path w) = r"
    and es: "events (access_control_round env sb state success tmp path w) = es"
    by (rule outcome_events)
  from assms(2) r have "r = Inr (flagged, tmp')"
    by simp
  from access_control_round_scan[OF run[unfolded this] assms(1)]
  have "(flagged \<longleftrightarrow> 1 \<le> measured_size es \<and> \<not> affordance_seen state es)"
    and "alerts es = (if flagged then [leak_line (measured_size es) (url_base w) path] else [])"
    by simp_all
  then show ?thesis
    unfolding es by (auto simp: affordance_def)
qed

theorem access_control_round_flags_witness:
  "outcome (access_control_round wallet_env sandbox0 ''locked'' True None ''/home.html#send''
      leaky_world0) = Inr (True, Some 0)
   \<and> measured_size (events (access_control_round wallet_env sandbox0 ''locked'' True None
        ''/home.html#send'' leaky_world0)) = 5
   \<and> \<not> affordance_seen ''locked'' (events (access_control_round wallet_env sandbox0 ''locked''
        True None ''/home.html#send'' leaky_world0))
   \<and> alerts (events (access_control_round wallet_env sandbox0 ''locked'' True None
        ''/home.html#send'' leaky_world0))
       = [leak_line 5 ''chrome-extension://wallet'' ''/home.html#send'']
   \<and> leak_line 5 ''chrome-extension://wallet'' ''/home.html#send''
       = ''Size: [    5] | URL: chrome-extension://wallet/home.html#send''
   \<and> outcome (access_control_round wallet_env sandbox0 ''locked'' True None ''/home.html''
      leaky_world0) = Inr (False, Some 0)
   \<and> measured_size (events (access_control_round wallet_env sandbox0 ''locked'' True None
        ''/home.html'' leaky_world0)) = 6
   \<and> affordance_seen ''locked'' (events (access_control_round wallet_env sandbox0 ''locked''
        True None ''/home.html'' leaky_world0))
   \<and> alerts (events (access_control_round wallet_env sandbox0 ''locked'' True None
        ''/home.html'' leaky_world0)) = []"
proof -
  let ?leak = "access_control_round wallet_env sandbox0 ''locked'' True None ''/home.html#send''
      leaky_world0"
  let ?gate = "access_control_round wallet_env sandbox0 ''locked'' True None ''/home.html''
      leaky_world0"
  have state: "''locked'' = ''locked'' \<or> ''locked'' = ''unlocked''"
    by simp
  have leak: "outcome ?leak = Inr (True, Some 0)"
    by code_simp
  have size: "measured_size (events ?leak) = 5"
    by code_simp
  have gate: "outcome ?gate = Inr (False, Some 0)"
    by code_simp
  have size': "measured_size (events ?gate) = 6"
    by code_simp
  have line: "leak_line 5 ''chrome-extension://wallet'' ''/home.html#send''
       = ''Size: [    5] | URL: chrome-extension://wallet/home.html#send''"
    by code_simp
  have base: "url_base leaky_world0 = ''chrome-extension://wallet''"
    by (simp add: leaky_world0_def)
  from access_control_round_flags[OF state leak] access_control_round_flags[OF state gate]
    leak size gate size' line base
  show ?thesis
    by simp
qed

theorem access_control_scans_catalog_witness:
  "lower (get_extra_value [''value'' \<mapsto> ''Locked'']) = ''locked''
   \<and> outcome (access_control wallet_env sandbox0 [''value'' \<mapsto> ''Locked''] leaky_world0)
       = Inr None
   \<and> infos (events (access_control wallet_env sandbox0 [''value'' \<mapsto> ''Locked''] leaky_world0))
       = [''State: locked'', ''Number of URLs: 31'']
   \<and> (\<exists>pre scan.
         events (access_control wallet_env sandbox0 [''value'' \<mapsto> ''Locked''] leaky_world0)
           = pre @ [state_line (lower (get_extra_value [''value'' \<mapsto> ''Locked''])),
                    urls_line (length (target_catalog pages fragments))] @ scan
         \<and> infos pre = [] \<and> infos scan = []
         \<and> visits scan
             = map (extension_url (url_base leaky_world0)) (target_catalog pages fragments))"
proof -
  let ?t = "access_control wallet_env sandbox0 [''value'' \<mapsto> ''Locked''] leaky_world0"
  have state: "lower (get_extra_value [''value'' \<mapsto> ''Locked'']) = ''locked''"
    by code_simp
  have returns: "outcome ?t = Inr None"
    by code_simp
  have lines: "infos (events ?t) = [''State: locked'', ''Number of URLs: 31'']"
    by code_simp
  from state have "lower (get_extra_value [''value'' \<mapsto> ''Locked'']) = ''locked''
      \<or> lower (get_extra_value [''value'' \<mapsto> ''Locked'']) = ''unlocked''"
    by (rule disjI1)
  from access_control_scans_catalog[OF this, of leaky_world0 wallet_env sandbox0]
  have "(\<exists>e. outcome ?t = Inl e)
       \<or> outcome ?t = Inr None
          \<and> Console Error ''Wallet is not created'' \<in> set (events ?t)
          \<and> infos (events ?t) = []
       \<or> outcome ?t = Inr None
          \<and> (\<exists>pre scan.
                events ?t
                  = pre @ [state_line (lower (get_extra_value [''value'' \<mapsto> ''Locked''])),
                           urls_line (length (target_catalog pages fragments))] @ scan
                \<and> infos pre = [] \<and> infos scan = []
                \<and> visits scan
                    = map (extension_url (url_base leaky_world0))
                        (target_catalog pages fragments))"
    by (elim conjE)
  then have "\<exists>pre scan.
         events ?t
           = pre @ [state_line (lower (get_extra_value [''value'' \<mapsto> ''Locked''])),
                    urls_line (length (target_catalog pages fragments))] @ scan
         \<and> infos pre = [] \<and> infos scan = []
         \<and> visits scan
             = map (extension_url (url_base leaky_world0)) (target_catalog pages fragments)"
  proof (elim disjE)
    assume "\<exists>e. outcome ?t = Inl e"
    with returns show ?thesis by simp
  next
    assume "outcome ?t = Inr None
          \<and> Console Error ''Wallet is not created'' \<in> set (events ?t)
          \<and> infos (events ?t) = []"
    with lines show ?thesis by simp
  next
    assume "outcome ?t = Inr None
          \<and> (\<exists>pre scan.
                events ?t
                  = pre @ [state_line (lower (get_extra_value [''value'' \<mapsto> ''Locked''])),
                           urls_line (length (target_catalog pages fragments))] @ scan
                \<and> infos pre = [] \<and> infos scan = []
                \<and> visits scan
                    = map (extension_url (url_base leaky_world0))
                        (target_catalog pages fragments))"
    then show ?thesis by (rule conjunct2)
  qed
  with state returns lines show ?thesis
    by (intro conjI)
qed

subsection \<open>The required state\<close>

lemma wait_opening:
  "wait env sb pg n w = (r, w', es) \<Longrightarrow> list_all (is_opening base) es"
  by (auto simp: wait_def elim!: bnd_cases call_cases split: if_splits)

lemma goto_home_opening:
  assumes "goto_browser_extension env sb pg [] w = (r, w', es)"
  shows "list_all (is_opening (url_base w)) es"
  using assms
  by (auto simp: goto_browser_extension_def goto_def elim!: bnd_cases call_cases
      dest!: wait_opening[where base = "url_base w"])

lemma is_created_opening:
  "is_created env pg w = (r, w', es) \<Longrightarrow> list_all (is_opening base) es"
  by (auto simp: is_created_def created_def is_visible_def locate_def print_error_def
      elim!: bnd_cases call_cases split: if_splits)

lemma access_control_invalid:
  assumes run: "access_control env sb kw w = (r, w', es)"
    and invalid: "lower (get_extra_value kw) \<noteq> ''locked''"
      "lower (get_extra_value kw) \<noteq> ''unlocked''"
  shows "list_all (is_opening (url_base w)) es
    \<and> (r = Inr (Some 0) \<and> moves es = [Said Error state_required]
       \<or> r = Inr None \<and> moves es = [Said Error ''Wallet is not created'']
       \<or> (\<exists>e. r = Inl e) \<and> moves es = [])"
proof -
  from run invalid have "bnd (new_page env) (\<lambda>pg.
     bnd (goto_browser_extension env sb pg []) (\<lambda>u.
     bnd (is_created env pg) (\<lambda>c.
     if c then bnd (print_error state_required) (\<lambda>u. ret (Some 0))
     else ret None))) w = (r, w', es)"
    by (simp add: access_control_def Let_def cong: if_cong)
  then show ?thesis
  proof (cases rule: bnd_cases)
    case (raised e)
    then show ?thesis by (auto elim!: call_cases)
  next
    case page: (returned pg w1 es1 es2)
    from page(1) have o1: "list_all (is_opening (url_base w)) es1" "moves es1 = []"
      "url_base w1 = url_base w"
      by (auto elim!: call_cases)
    from page(2) show ?thesis
    proof (cases rule: bnd_cases)
      case (raised e)
      from goto_home_opening[OF raised(1)] goto_browser_extension_moves[OF raised(1)]
        o1 page(3) raised(2) show ?thesis
        by simp
    next
      case home: (returned u w2 es3 es4)
      from goto_home_opening[OF home(1)] goto_browser_extension_moves[OF home(1)] o1
      have o2: "list_all (is_opening (url_base w)) es3" "moves es3 = []"
        by simp_all
      from home(2) show ?thesis
      proof (cases rule: bnd_cases)
        case (raised e)
        from is_created_opening[OF raised(1)] is_created_moves[OF raised(1)]
          o1 o2 page(3) home(3) raised(2) show ?thesis
          by simp
      next
        case wallet: (returned c w3 es5 es6)
        from is_created_opening[OF wallet(1)] 
        have o3: "list_all (is_opening (url_base w)) es5" .
        from wallet(2) have "(c \<and> r = Inr (Some 0) \<and> es6 = [Console Error state_required])
            \<or> (\<not> c \<and> r = Inr None \<and> es6 = [])"
          by (auto simp: print_error_def elim!: bnd_cases call_cases split: if_splits)
        with is_created_moves[OF wallet(1)] o1 o2 o3 page(3) home(3) wallet(3) show ?thesis
          by auto
      qed
    qed
  qed
qed

lemma access_control_lower:
  assumes "lower (get_extra_value kw) = lower (get_extra_value kw')"
  shows "access_control env sb kw = access_control env sb kw'"
  unfolding access_control_def assms by (rule refl)

text \<open>
  Claim C10. The scan compares the lower case of the value it is given with \<open>locked\<close> and
  \<open>unlocked\<close>: \<open>Locked\<close> and \<open>LOCKED\<close> are read as \<open>locked\<close>, and two values with the same
  lower case give the same scan. For a value whose lower case is neither (the empty value
  is one), every event of the scan belongs to the opening of the home page and the
  question whether a wallet exists, or is a line of error. So no target is loaded, the
  lock is neither asked for nor forced, and the catalog's lines are not printed. The scan
  then ends in one of three ways: it prints that the state is required and returns 0;
  or there is no wallet; or a call raised before the value was looked at.
\<close>

theorem access_control_state_literal:
  "lower ''Locked'' = ''locked'' \<and> lower ''LOCKED'' = ''locked''
   \<and> lower ''Unlocked'' = ''unlocked'' \<and> lower ''UNLOCKED'' = ''unlocked''
   \<and> (lower (get_extra_value kw) = lower (get_extra_value kw')
        \<longrightarrow> access_control env sb kw = access_control env sb kw')
   \<and> (lower (get_extra_value kw) \<noteq> ''locked'' \<and> lower (get_extra_value kw) \<noteq> ''unlocked''
        \<longrightarrow> list_all (is_opening (url_base w)) (events (access_control env sb kw w))
          \<and> (outcome (access_control env sb kw w) = Inr (Some 0)
                \<and> moves (events (access_control env sb kw w)) = [Said Error state_required]
              \<or> outcome (access_control env sb kw w) = Inr None
                \<and> moves (events (access_control env sb kw w))
                    = [Said Error ''Wallet is not created'']
              \<or> (\<exists>e. outcome (access_control env sb kw w) = Inl e)
                \<and> moves (events (access_control env sb kw w)) = []))"
proof -
  obtain r w' es where run: "access_control env sb kw w = (r, w', es)"
    and r: "outcome (access_control env sb kw w) = r"
    and es: "events (access_control env sb kw w) = es"
    by (rule outcome_events)
  have spellings: "lower ''Locked'' = ''locked''" "lower ''LOCKED'' = ''locked''"
    "lower ''Unlocked'' = ''unlocked''" "lower ''UNLOCKED'' = ''unlocked''"
    by code_simp+
  have same: "lower (get_extra_value kw) = lower (get_extra_value kw')
        \<longrightarrow> access_control env sb kw = access_control env sb kw'"
    by (rule impI) (rule access_control_lower)
  have "lower (get_extra_value kw) \<noteq> ''locked'' \<and> lower (get_extra_value kw) \<noteq> ''unlocked''
        \<longrightarrow> list_all (is_opening (url_base w)) es
          \<and> (r = Inr (Some 0) \<and> moves es = [Said Error state_required]
              \<or> r = Inr None \<and> moves es = [Said Error ''Wallet is not created'']
              \<or> (\<exists>e. r = Inl e) \<and> moves es = [])"
    using access_control_invalid[OF run] by blast
  with spellings same show ?thesis
    unfolding r es by (intro conjI)
qed

theorem access_control_state_literal_witness:
  "lower (get_extra_value [''value'' \<mapsto> []]) \<noteq> ''locked''
   \<and> lower (get_extra_value [''value'' \<mapsto> []]) \<noteq> ''unlocked''
   \<and> lower (get_extra_value [''value'' \<mapsto> ''LOCKED'']) = lower (get_extra_value [''value'' \<mapsto> ''locked''])
   \<and> access_control wallet_env sandbox0 [''value'' \<mapsto> ''LOCKED'']
       = access_control wallet_env sandbox0 [''value'' \<mapsto> ''locked'']
   \<and> events (access_control wallet_env sandbox0 [''value'' \<mapsto> []] leaky_world0)
       = [Call NewPage (Inr (Handle 0)),
          Call (Goto 0 ''chrome-extension://wallet/home.html'') (Inr Done),
          Call (Sleep 2) (Inr Done),
          Call (WaitForLoadState 0) (Inr Done),
          Call (IsVisible 0 (Locator ''button'' ''create a new wallet'')) (Inr (Flag False)),
          Console Error state_required]
   \<and> outcome (access_control wallet_env sandbox0 [''value'' \<mapsto> []] leaky_world0) = Inr (Some 0)
   \<and> list_all (is_opening (url_base leaky_world0))
        (events (access_control wallet_env sandbox0 [''value'' \<mapsto> []] leaky_world0))
   \<and> moves (events (access_control wallet_env sandbox0 [''value'' \<mapsto> []] leaky_world0))
       = [Said Error state_required]"
proof -
  let ?t = "access_control wallet_env sandbox0 [''value'' \<mapsto> []] leaky_world0"
  have invalid: "lower (get_extra_value [''value'' \<mapsto> []]) \<noteq> ''locked''
      \<and> lower (get_extra_value [''value'' \<mapsto> []]) \<noteq> ''unlocked''"
    by (simp add: get_extra_value_def lower_def)
  have spelling: "lower (get_extra_value [''value'' \<mapsto> ''LOCKED''])
      = lower (get_extra_value [''value'' \<mapsto> ''locked''])"
    by code_simp
  have run: "events ?t
       = [Call NewPage (Inr (Handle 0)),
          Call (Goto 0 ''chrome-extension://wallet/home.html'') (Inr Done),
          Call (Sleep 2) (Inr Done),
          Call (WaitForLoadState 0) (Inr Done),
          Call (IsVisible 0 (Locator ''button'' ''create a new wallet'')) (Inr (Flag False)),
          Console Error state_required]"
    by code_simp
  have returns: "outcome ?t = Inr (Some 0)"
    by code_simp
  note inst = access_control_state_literal[of "[''value'' \<mapsto> []]" "[''value'' \<mapsto> []]"
      wallet_env sandbox0 leaky_world0]
    access_control_state_literal[of "[''value'' \<mapsto> ''LOCKED'']" "[''value'' \<mapsto> ''locked'']"
      wallet_env sandbox0 leaky_world0]
  from inst(1) invalid
  have "list_all (is_opening (url_base leaky_world0)) (events ?t)
          \<and> (outcome ?t = Inr (Some 0) \<and> moves (events ?t) = [Said Error state_required]
              \<or> outcome ?t = Inr None
                \<and> moves (events ?t) = [Said Error ''Wallet is not created'']
              \<or> (\<exists>e. outcome ?t = Inl e) \<and> moves (events ?t) = [])"
    by blast
  with returns
  have "list_all (is_opening (url_base leaky_world0)) (events ?t)"
    and "moves (events ?t) = [Said Error state_required]"
    by auto
  moreover from inst(2) spelling
  have "access_control wallet_env sandbox0 [''value'' \<mapsto> ''LOCKED'']
       = access_control wallet_env sandbox0 [''value'' \<mapsto> ''locked'']"
    by blast
  ultimately show ?thesis
    using invalid spelling run returns by (intro conjI) simp_all
qed

end
